theory Spec2Isabelle
  imports Main
begin

section \<open>Data model of \<open>TldrawEditor.tsx\<close>\<close>

text \<open>
  JavaScript objects, arrays and functions are compared by identity (\<open>Object.is\<close>) in
  React dependency arrays; a reference is modelled by a number, so that equality of numbers
  is identity of objects. Strings and booleans are compared by value.
\<close>

type_synonym ref = nat

datatype js_error = JsError nat

text \<open>
  The props of \<open>TldrawEditorWithReadyStore\<close> and \<open>TldrawEditorWithLoadingStore\<close>
  (\<open>TldrawEditorBaseProps\<close> plus \<open>store\<close> and \<open>user\<close>). An optional prop is an \<open>option\<close>,
  \<open>None\<close> being \<open>undefined\<close>. \<open>onMount\<close> receives the editor instance and returns a
  teardown closure or \<open>undefined\<close>. The type of \<open>store\<close> is a parameter: a ready store
  for the one component, a store with status for the other. \<open>children\<close> are handed on to
  \<open>Layout\<close> as they are and are left out.
\<close>

record 's props =
  onMount :: "(nat \<Rightarrow> ref option) option"
  store :: 's
  tools :: ref
  shapeUtils :: ref
  bindingUtils :: ref
  user :: ref
  initialState :: "string option"
  autoFocus :: "bool option"
  inferDarkMode :: "bool option"
  cameraOptions :: "ref option"
  options :: "ref option"
  licenseKey :: "string option"

text \<open>What the hooks \<open>useContainer()\<close> and \<open>useEditorComponents()\<close> return at a render.\<close>

record hooks =
  container :: ref
  LoadingScreen :: "ref option"

text \<open>
  Modelled from the spec: the type \<open>TLStoreWithStatus\<close> (\<open>utils/sync/StoreWithStatus\<close>)
  is not part of the sources at hand. The spec gives it as a tagged union over
  \<open>loading\<close>, \<open>error(err)\<close>, \<open>not-synced\<close>, \<open>synced-local\<close>, \<open>synced-remote\<close>, each ready
  variant carrying the underlying document store.
\<close>

datatype store_with_status =
    StatusError js_error
  | StatusLoading
  | StatusNotSynced ref
  | StatusSyncedLocal ref
  | StatusSyncedRemote ref

section \<open>The store status gate: \<open>TldrawEditorWithLoadingStore\<close>\<close>

datatype gate_out =
    GNull
  | GLoadingScreen ref
  | GReadyStore "ref props"

definition with_store :: "'a props \<Rightarrow> 'b \<Rightarrow> 'b props" where
  "with_store p st =
     \<lparr> onMount = onMount p, store = st, tools = tools p, shapeUtils = shapeUtils p,
       bindingUtils = bindingUtils p, user = user p, initialState = initialState p,
       autoFocus = autoFocus p, inferDarkMode = inferDarkMode p,
       cameraOptions = cameraOptions p, options = options p, licenseKey = licenseKey p \<rparr>"

text \<open>
  The render function, lines 313-336: the \<open>switch\<close> on \<open>store.status\<close>. \<open>Inl\<close> is the
  \<open>throw\<close>; \<open>GReadyStore q\<close> is the element
  \<open><TldrawEditorWithReadyStore {...rest} store={store.store} user={user} />\<close>.
\<close>

definition TldrawEditorWithLoadingStore ::
  "hooks \<Rightarrow> store_with_status props \<Rightarrow> js_error + gate_out" where
  "TldrawEditorWithLoadingStore c p =
     (case store p of
        StatusError err \<Rightarrow> Inl err
      | StatusLoading \<Rightarrow>
          (case LoadingScreen c of Some l \<Rightarrow> Inr (GLoadingScreen l) | None \<Rightarrow> Inr GNull)
      | StatusNotSynced st \<Rightarrow> Inr (GReadyStore (with_store p st))
      | StatusSyncedLocal st \<Rightarrow> Inr (GReadyStore (with_store p st))
      | StatusSyncedRemote st \<Rightarrow> Inr (GReadyStore (with_store p st)))"

subsection \<open>The theme effect\<close>

text \<open>
  The state that the effect of lines 306-311 reads and writes: the dependencies of its
  last run, the class list of each container element, and the colour scheme in the
  preferences of each user (\<open>user.userPreferences.get().colorScheme\<close>).
\<close>

record gate_state =
  deps_theme :: "(ref \<times> ref) option"
  classList :: "ref \<Rightarrow> string list"
  colorScheme :: "ref \<Rightarrow> string"

text \<open>\<open>DOMTokenList.remove\<close> and \<open>DOMTokenList.add\<close>.\<close>

definition classList_remove :: "string \<Rightarrow> string list \<Rightarrow> string list" where
  "classList_remove t xs = removeAll t xs"

definition classList_add :: "string \<Rightarrow> string list \<Rightarrow> string list" where
  "classList_add t xs = (if t \<in> set xs then xs else xs @ [t])"

text \<open>
  Lines 306-311, with the dependencies \<open>[container, user]\<close>: when the colour scheme read
  is \<open>dark\<close>, the light class is removed and the dark one added; otherwise nothing is done.
\<close>

definition theme_effect :: "hooks \<Rightarrow> store_with_status props \<Rightarrow> gate_state \<Rightarrow> gate_state" where
  "theme_effect c p g =
     (if deps_theme g = Some (container c, user p) then g
      else if colorScheme g (user p) = ''dark'' then
        g\<lparr> deps_theme := Some (container c, user p),
           classList := (classList g)(container c :=
             classList_add ''tl-theme__dark''
               (classList_remove ''tl-theme__light'' (classList g (container c)))) \<rparr>
      else g\<lparr> deps_theme := Some (container c, user p) \<rparr>)"

text \<open>
  A render of the gate commits, and its effect runs, unless the render throws: then the
  boundary takes the gate out of the tree, and its effect is new at a later mount. A change
  of the preferences renders nothing here, since the effect does not subscribe to them.
\<close>

datatype gate_action = GateRender hooks "store_with_status props" | SetColorScheme ref string

fun gate_step :: "gate_action \<Rightarrow> gate_state \<Rightarrow> gate_state" where
  "gate_step (GateRender c p) g =
     (case TldrawEditorWithLoadingStore c p of
        Inl err \<Rightarrow> g\<lparr> deps_theme := None \<rparr>
      | Inr out \<Rightarrow> theme_effect c p g)"
| "gate_step (SetColorScheme u v) g = g\<lparr> colorScheme := (colorScheme g)(u := v) \<rparr>"

text \<open>
  Line 231: the container starts with the classes \<open>tl-container tl-theme__light\<close>.
\<close>

definition gate_initial :: "(ref \<Rightarrow> string) \<Rightarrow> gate_state" where
  "gate_initial prefs =
     \<lparr> deps_theme = None,
       classList = (\<lambda>c. [''tl-container'', ''tl-theme__light'']),
       colorScheme = prefs \<rparr>"

definition is_ready :: "store_with_status \<Rightarrow> bool" where
  "is_ready st = (case st of StatusError e \<Rightarrow> False | StatusLoading \<Rightarrow> False | _ \<Rightarrow> True)"

text \<open>
  A run of the gate from a state.
\<close>

definition gate_run :: "gate_state \<Rightarrow> gate_action list \<Rightarrow> gate_state" where
  "gate_run g acts = foldl (\<lambda>g a. gate_step a g) g acts"

section \<open>The lifecycle controller: \<open>TldrawEditorWithReadyStore\<close>\<close>

subsection \<open>The engine and the trace of its calls\<close>

text \<open>The options held in \<open>editorOptionsRef\<close> (lines 366-374).\<close>

record editor_options =
  opt_autoFocus :: bool
  opt_inferDarkMode :: "bool option"
  opt_initialState :: "string option"
  opt_cameraOptions :: "ref option"

text \<open>
  The argument of \<open>new Editor\<close> (lines 387-400); \<open>arg_getContainer\<close> is the container
  that the accessor \<open>() => container\<close> returns.
\<close>

record editor_args =
  arg_store :: ref
  arg_shapeUtils :: ref
  arg_bindingUtils :: ref
  arg_tools :: ref
  arg_getContainer :: ref
  arg_user :: ref
  arg_initialState :: "string option"
  arg_autoFocus :: bool
  arg_inferDarkMode :: "bool option"
  arg_cameraOptions :: "ref option"
  arg_options :: "ref option"
  arg_licenseKey :: "string option"

datatype history_mode = HistoryIgnore

text \<open>
  Every call that the component makes on a collaborator is recorded, in the order of the
  calls. An engine instance is named by the number of engines constructed before it.
  \<open>Raise\<close> is an error thrown to the supervising error boundary.
\<close>

datatype event =
    NewEditor nat editor_args
  | SetEditor nat
  | Dispose nat
  | SetCameraOptions nat ref
  | RunEnter nat history_mode
  | RunExit nat
  | OnEditorMount ref nat "ref option"
  | OnMount nat "ref option"
  | Emit nat string
  | SetTldrawReady
  | TeardownStore nat ref
  | TeardownCallback nat ref
  | Raise js_error

text \<open>
  Modelled from the spec: the class \<open>Editor\<close> (\<open>editor/Editor\<close>) and the store's props
  are not part of the sources at hand. The spec's engine constructor accepts the
  options above and either throws (a ConstructionError) or returns a handle;
  \<open>new_Editor env k args\<close> is \<open>Some e\<close> when the construction of the \<open>k\<close>-th instance with
  \<open>args\<close> throws \<open>e\<close>. \<open>onEditorMount env st i\<close> is what the mount hook of store \<open>st\<close>
  returns for instance \<open>i\<close>: a teardown closure or \<open>undefined\<close>. Both hooks are taken to
  return normally.
\<close>

record env =
  new_Editor :: "nat \<Rightarrow> editor_args \<Rightarrow> js_error option"
  onEditorMount :: "ref \<Rightarrow> nat \<Rightarrow> ref option"

subsection \<open>Hook state\<close>

type_synonym identity_key =
  "ref \<times> ref \<times> ref option \<times> ref \<times> ref \<times> ref \<times> ref \<times> string option"

text \<open>The state of the mounted \<open>Layout\<close> child: its \<open>useOnMount\<close> effect.\<close>

record layout_state =
  lay_editor :: nat
  teardownStore :: "ref option"
  teardownCallback :: "ref option"

text \<open>
  Modelled from the spec: the class \<open>Editor\<close> and the hook \<open>useRefState\<close> are not part of
  the sources at hand. Of an engine instance the state keeps its store and its
  CrashState, \<open>null | Error\<close>, which is \<open>null\<close> at construction. \<open>useRefState\<close> is taken
  as a state hook whose setter is the same function at every render: \<open>editor\<close> is the
  instance exposed to the subtree.

  The rest is the state of one mounted \<open>TldrawEditorWithReadyStore\<close> and the
  process-wide flag: the holder \<open>editorOptionsRef.current\<close>, and for each
  \<open>useLayoutEffect\<close> the dependencies of its last run (\<open>None\<close> before the first) and,
  where it returns one, the registered cleanup.
\<close>

record rs_state =
  alive :: bool
  last_render :: "hooks \<times> ref props"
  editor :: "nat option"
  editorOptionsRef :: editor_options
  deps_options :: "editor_options option"
  deps_recreate :: "identity_key option"
  cleanup_recreate :: "nat option"
  deps_camera :: "(nat option \<times> ref option) option"
  layout :: "layout_state option"
  editor_store :: "nat \<Rightarrow> ref"
  editor_crashingError :: "nat \<Rightarrow> js_error option"
  constructed :: nat
  tldrawReady :: bool
  trace :: "event list"

subsection \<open>The render function\<close>

text \<open>Line 348: \<open>autoFocus = true\<close> is the default of the destructured prop.\<close>

definition render_options :: "ref props \<Rightarrow> editor_options" where
  "render_options p =
     \<lparr> opt_autoFocus = (case autoFocus p of None \<Rightarrow> True | Some b \<Rightarrow> b),
       opt_inferDarkMode = inferDarkMode p,
       opt_initialState = initialState p,
       opt_cameraOptions = cameraOptions p \<rparr>"

text \<open>
  Line 409, the dependencies of the effect that constructs the engine, in the order of the
  array; \<open>setEditor\<close> is the same function at every render and is left out.
\<close>

definition recreate_deps :: "hooks \<Rightarrow> ref props \<Rightarrow> identity_key" where
  "recreate_deps c p =
     (bindingUtils p, container c, options p, shapeUtils p, store p, tools p, user p,
      licenseKey p)"

text \<open>Line 432: \<open>() => editor?.getCrashingError() ?? null\<close>.\<close>

definition crashingError :: "rs_state \<Rightarrow> js_error option" where
  "crashingError s =
     (case editor s of None \<Rightarrow> None | Some i \<Rightarrow> editor_crashingError s i)"

datatype render_out = RNull | RCrash js_error | RLayout nat

text \<open>
  Lines 437-465. A crash value is an \<open>Error\<close> object, which is truthy, so the test
  \<open>crashingError ? ... : ...\<close> takes the first branch exactly when it is not \<open>null\<close>.
\<close>

definition render_tree :: "rs_state \<Rightarrow> render_out" where
  "render_tree s =
     (case editor s of
        None \<Rightarrow> RNull
      | Some i \<Rightarrow>
          (case crashingError s of
             Some e \<Rightarrow> RCrash e
           | None \<Rightarrow> RLayout i))"

text \<open>Lines 486-488.\<close>

definition Crash :: "js_error \<Rightarrow> js_error + unit" where
  "Crash e = Inl e"

subsection \<open>The effects\<close>

text \<open>
  React's contract for \<open>useLayoutEffect(f, deps)\<close>, as the model uses it: at a commit an
  effect runs when it has not run before or when a dependency differs from the one of its
  last run; the cleanups of all effects that run again are called before any effect runs;
  the effects of a child run before those of its parent, and those of one component in
  the order of the hooks; an update of state made by an effect is rendered at once,
  before anything else happens; an error thrown by an effect unmounts the component.
\<close>

text \<open>Lines 375-382: the holder is brought up to date.\<close>

definition options_effect :: "editor_options \<Rightarrow> rs_state \<Rightarrow> rs_state" where
  "options_effect opts s =
     (if deps_options s = Some opts then s
      else s\<lparr> editorOptionsRef := opts, deps_options := Some opts \<rparr>)"

definition editor_args_of :: "hooks \<Rightarrow> ref props \<Rightarrow> editor_options \<Rightarrow> editor_args" where
  "editor_args_of c p opts =
     \<lparr> arg_store = store p, arg_shapeUtils = shapeUtils p, arg_bindingUtils = bindingUtils p,
       arg_tools = tools p, arg_getContainer = container c, arg_user = user p,
       arg_initialState = opt_initialState opts, arg_autoFocus = opt_autoFocus opts,
       arg_inferDarkMode = opt_inferDarkMode opts,
       arg_cameraOptions = opt_cameraOptions opts,
       arg_options = options p, arg_licenseKey = licenseKey p \<rparr>"

text \<open>Lines 404-406: the cleanup of the construction effect, when the effect runs again.\<close>

definition recreate_cleanup :: "identity_key \<Rightarrow> rs_state \<Rightarrow> rs_state" where
  "recreate_cleanup key s =
     (if deps_recreate s = Some key then s
      else
        (case cleanup_recreate s of
           None \<Rightarrow> s
         | Some j \<Rightarrow> s\<lparr> cleanup_recreate := None, trace := trace s @ [Dispose j] \<rparr>))"

text \<open>
  Lines 384-410: the construction effect. It reads the holder, calls the constructor
  and, when that returns, \<open>setEditor\<close>; the first component of the result is the error
  thrown.
\<close>

definition recreate_effect ::
  "env \<Rightarrow> hooks \<Rightarrow> ref props \<Rightarrow> rs_state \<Rightarrow> js_error option \<times> rs_state" where
  "recreate_effect env c p s =
     (if deps_recreate s = Some (recreate_deps c p) then (None, s)
      else
        (let k = constructed s;
             args = editor_args_of c p (editorOptionsRef s);
             s1 = s\<lparr> deps_recreate := Some (recreate_deps c p),
                     trace := trace s @ [NewEditor k args] \<rparr>
         in case new_Editor env k args of
              Some e \<Rightarrow> (Some e, s1)
            | None \<Rightarrow>
                (None,
                 s1\<lparr> constructed := Suc k,
                      editor_store := (editor_store s)(k := store p),
                      editor_crashingError := (editor_crashingError s)(k := None),
                      editor := Some k,
                      cleanup_recreate := Some k,
                      trace := trace s1 @ [SetEditor k] \<rparr>)))"

text \<open>
  Lines 413-417: \<open>ed\<close> is the \<open>editor\<close> of the render that the effect belongs to.
\<close>

definition camera_effect :: "nat option \<Rightarrow> ref option \<Rightarrow> rs_state \<Rightarrow> rs_state" where
  "camera_effect ed co s =
     (if deps_camera s = Some (ed, co) then s
      else
        (case ed of
           None \<Rightarrow> s\<lparr> deps_camera := Some (ed, co) \<rparr>
         | Some i \<Rightarrow>
             (case co of
                None \<Rightarrow> s\<lparr> deps_camera := Some (ed, co) \<rparr>
              | Some cam \<Rightarrow>
                  s\<lparr> deps_camera := Some (ed, co),
                      trace := trace s @ [SetCameraOptions i cam] \<rparr>)))"

text \<open>
  Lines 473-481 and 509-522: the effect of \<open>useOnMount\<close> in \<open>Layout\<close>, for the editor \<open>i\<close>
  of the context. The store's hook and the caller's \<open>onMount\<close> run inside
  \<open>editor.run(..., { history: 'ignore' })\<close>, followed there by \<open>editor.emit('mount')\<close>;
  then \<open>window.tldrawReady\<close> is set. The closure returned is the cleanup of the effect.
  The dependencies of the effect are the editor and \<open>onMountEvent\<close>; the hook \<open>useEvent\<close>
  (not part of the sources at hand) is taken to return the same function at every
  render, which calls the handler of the latest render. \<open>Editor.run\<close> and \<open>Editor.emit\<close>
  are recorded as calls.
\<close>

definition useOnMount_effect :: "env \<Rightarrow> ref props \<Rightarrow> nat \<Rightarrow> rs_state \<Rightarrow> rs_state" where
  "useOnMount_effect env p i s =
     (let st = editor_store s i;
          tdStore = onEditorMount env st i;
          tdCallback = (case onMount p of None \<Rightarrow> None | Some f \<Rightarrow> f i)
      in s\<lparr> layout :=
               Some \<lparr> lay_editor = i, teardownStore = tdStore, teardownCallback = tdCallback \<rparr>,
             tldrawReady := True,
             trace := trace s
               @ [RunEnter i HistoryIgnore, OnEditorMount st i tdStore]
               @ (case onMount p of None \<Rightarrow> [] | Some f \<Rightarrow> [OnMount i tdCallback])
               @ [Emit i ''mount'', RunExit i, SetTldrawReady] \<rparr>)"

text \<open>Lines 477-480: \<open>teardownStore?.()\<close>, then \<open>teardownCallback?.()\<close>.\<close>

definition teardown_events :: "layout_state \<Rightarrow> event list" where
  "teardown_events l =
     (case teardownStore l of None \<Rightarrow> [] | Some t \<Rightarrow> [TeardownStore (lay_editor l) t])
     @ (case teardownCallback l of None \<Rightarrow> [] | Some t \<Rightarrow> [TeardownCallback (lay_editor l) t])"

definition useOnMount_cleanup :: "rs_state \<Rightarrow> rs_state" where
  "useOnMount_cleanup s =
     (case layout s of
        None \<Rightarrow> s
      | Some l \<Rightarrow> s\<lparr> layout := None, trace := trace s @ teardown_events l \<rparr>)"

text \<open>
  The child \<open>Layout\<close> at a commit whose tree is \<open>out\<close>: its cleanup runs when it leaves
  the tree or when the editor of the context is another one; its effect runs when it
  enters the tree or after that cleanup.
\<close>

definition layout_cleanups :: "render_out \<Rightarrow> rs_state \<Rightarrow> rs_state" where
  "layout_cleanups out s =
     (case layout s of
        None \<Rightarrow> s
      | Some l \<Rightarrow> if out = RLayout (lay_editor l) then s else useOnMount_cleanup s)"

definition layout_effects :: "env \<Rightarrow> ref props \<Rightarrow> render_out \<Rightarrow> rs_state \<Rightarrow> rs_state" where
  "layout_effects env p out s =
     (case out of
        RLayout i \<Rightarrow> (case layout s of None \<Rightarrow> useOnMount_effect env p i s | Some l \<Rightarrow> s)
      | _ \<Rightarrow> s)"

subsection \<open>Unmounting, rendering, and the steps of a run\<close>

text \<open>
  When the component leaves the tree, its own cleanups run, then those of its children.
\<close>

definition unmount :: "rs_state \<Rightarrow> rs_state" where
  "unmount s =
     (let s1 = (case cleanup_recreate s of
                  None \<Rightarrow> s
                | Some j \<Rightarrow> s\<lparr> cleanup_recreate := None, trace := trace s @ [Dispose j] \<rparr>)
      in (useOnMount_cleanup s1)\<lparr> alive := False \<rparr>)"

text \<open>
  Modelled from the spec: the boundary \<open>OptionalErrorBoundary\<close> around the subtree is
  not part of the sources at hand. By the spec an error thrown while rendering is
  re-raised for the enclosing boundary and no recovery is attempted at this layer. The
  boundary is taken to catch what \<open>Crash\<close> throws, leaving the component itself mounted,
  and to render at every render the tree that it is given: \<open>Layout\<close> is in the tree
  exactly when the render returns it, also for an instance constructed after another
  one crashed.

  One render of the component with its commit. The tree is computed from the state; a
  \<open>Crash\<close> element in it throws its error to the boundary, which, like the \<open>null\<close>
  tree, takes \<open>Layout\<close> out of the tree. Then the cleanups (child, parent) and the
  effects (child, parent) run. An error thrown by the constructor reaches the boundary
  above the component, which unmounts it.
\<close>

definition TldrawEditorWithReadyStore :: "env \<Rightarrow> hooks \<Rightarrow> ref props \<Rightarrow> rs_state \<Rightarrow> rs_state" where
  "TldrawEditorWithReadyStore env c p s =
     (let ed = editor s;
          out = render_tree s;
          s0 = s\<lparr> last_render := (c, p),
                  trace := trace s @ (case out of RCrash e \<Rightarrow> [Raise e] | _ \<Rightarrow> []) \<rparr>;
          s1 = layout_cleanups out s0;
          s2 = recreate_cleanup (recreate_deps c p) s1;
          s3 = layout_effects env p out s2;
          s4 = options_effect (render_options p) s3;
          r = recreate_effect env c p s4
      in case fst r of
           Some e \<Rightarrow> unmount ((snd r)\<lparr> trace := trace (snd r) @ [Raise e] \<rparr>)
         | None \<Rightarrow> camera_effect ed (cameraOptions p) (snd r))"

text \<open>A render, and the render that follows at once when \<open>setEditor\<close> changed the state.\<close>

definition render_step :: "env \<Rightarrow> hooks \<Rightarrow> ref props \<Rightarrow> rs_state \<Rightarrow> rs_state" where
  "render_step env c p s =
     (let s' = TldrawEditorWithReadyStore env c p s
      in if alive s' \<and> editor s' \<noteq> editor s then TldrawEditorWithReadyStore env c p s' else s')"

text \<open>
  The hook state of a fresh component at its first render: \<open>useRefState(null)\<close>,
  \<open>useRef\<close> of the options of that render, no effect run yet, no engine made.
\<close>

definition initial :: "hooks \<Rightarrow> ref props \<Rightarrow> rs_state" where
  "initial c p =
     \<lparr> alive = True, last_render = (c, p), editor = None,
       editorOptionsRef = render_options p,
       deps_options = None, deps_recreate = None, cleanup_recreate = None,
       deps_camera = None, layout = None,
       editor_store = (\<lambda>i. 0), editor_crashingError = (\<lambda>i. None),
       constructed = 0, tldrawReady = False, trace = [] \<rparr>"

definition mount :: "env \<Rightarrow> hooks \<Rightarrow> ref props \<Rightarrow> rs_state" where
  "mount env c p = render_step env c p (initial c p)"

text \<open>
  What can happen to a mounted component: a render with new props, a crash
  notification of an engine, the unmount.
\<close>

datatype action = Render hooks "ref props" | CrashEv nat js_error | Unmount

text \<open>
  Modelled from the spec: \<open>Editor.crash\<close> is not part of the sources at hand. By the
  spec the CrashState of an instance is \<open>null | Error\<close> and never goes back to \<open>null\<close>; a
  crash sets it to the error and notifies the \<open>crash\<close> channel.
\<close>

definition crash :: "nat \<Rightarrow> js_error \<Rightarrow> rs_state \<Rightarrow> rs_state" where
  "crash i e s =
     s\<lparr> editor_crashingError := (editor_crashingError s)(i := Some e),
        trace := trace s @ [Emit i ''crash''] \<rparr>"

text \<open>
  Lines 419-433: \<open>useSyncExternalStore\<close> listens on the \<open>crash\<close> channel of the current
  editor, and the component renders again, with the props it has, when the value read
  has changed. A component that is not mounted renders nothing.
\<close>

fun step :: "env \<Rightarrow> action \<Rightarrow> rs_state \<Rightarrow> rs_state" where
  "step env (Render c p) s = (if alive s then render_step env c p s else s)"
| "step env (CrashEv i e) s =
     (if i < constructed s then
        (let s' = crash i e s
         in if alive s \<and> editor s = Some i \<and> crashingError s' \<noteq> crashingError s
            then render_step env (fst (last_render s)) (snd (last_render s)) s'
            else s')
      else s)"
| "step env Unmount s = (if alive s then unmount s else s)"

definition run :: "env \<Rightarrow> hooks \<Rightarrow> ref props \<Rightarrow> action list \<Rightarrow> rs_state" where
  "run env c p acts = foldl (\<lambda>s a. step env a s) (mount env c p) acts"

text \<open>The events that a step adds to the trace.\<close>

definition new_events :: "env \<Rightarrow> action \<Rightarrow> rs_state \<Rightarrow> event list" where
  "new_events env a s = drop (length (trace s)) (trace (step env a s))"

section \<open>Reading a trace\<close>

text \<open>The constructions and disposals in a trace, by instance.\<close>

datatype lifecycle_event = Constructs nat | Disposes nat

fun lifecycle_of :: "event list \<Rightarrow> lifecycle_event list" where
  "lifecycle_of [] = []"
| "lifecycle_of (NewEditor k a # es) = Constructs k # lifecycle_of es"
| "lifecycle_of (Dispose j # es) = Disposes j # lifecycle_of es"
| "lifecycle_of (e # es) = lifecycle_of es"

text \<open>
  Disposals among the constructions and disposals.
\<close>

fun is_disposal :: "lifecycle_event \<Rightarrow> bool" where
  "is_disposal (Disposes i) = True"
| "is_disposal (Constructs i) = False"

fun is_recreation :: "event \<Rightarrow> bool" where
  "is_recreation (NewEditor k a) = True"
| "is_recreation (Dispose j) = True"
| "is_recreation e = False"

text \<open>The life of the instances \<open>0, ..., n\<close>, the last one not yet disposed.\<close>

definition generations :: "nat \<Rightarrow> lifecycle_event list" where
  "generations n = concat (map (\<lambda>i. [Constructs i, Disposes i]) [0..<n]) @ [Constructs n]"

text \<open>
  The number of renders of a run whose identity key differs from the key of the render
  before; \<open>k\<close> is the key of the first render.
\<close>

fun identity_changes :: "identity_key \<Rightarrow> action list \<Rightarrow> nat" where
  "identity_changes k [] = 0"
| "identity_changes k (Render c p # as) =
     (if recreate_deps c p = k then identity_changes k as
      else Suc (identity_changes (recreate_deps c p) as))"
| "identity_changes k (a # as) = identity_changes k as"


text \<open>
  The actions that leave a mounted component with the identity key \<open>k\<close>: a render with
  that key, a crash notification.
\<close>

fun keeps_identity :: "identity_key \<Rightarrow> action \<Rightarrow> bool" where
  "keeps_identity k (Render c p) = (recreate_deps c p = k)"
| "keeps_identity k (CrashEv i e) = True"
| "keeps_identity k Unmount = False"


definition mount_events :: "env \<Rightarrow> ref \<Rightarrow> nat \<Rightarrow> event list \<Rightarrow> event list" where
  "mount_events env st i callback =
     [RunEnter i HistoryIgnore, OnEditorMount st i (onEditorMount env st i)]
     @ callback @ [Emit i ''mount'', RunExit i, SetTldrawReady]"

text \<open>The call of the caller's \<open>onMount\<close>, when there is one.\<close>

definition callback_events :: "ref props \<Rightarrow> nat \<Rightarrow> event list" where
  "callback_events p i = (case onMount p of None \<Rightarrow> [] | Some f \<Rightarrow> [OnMount i (f i)])"

text \<open>
  The teardown calls of a trace, and the teardown closures that the mount hooks of a trace
  returned, each as the call that would invoke it.
\<close>

fun is_teardown :: "event \<Rightarrow> bool" where
  "is_teardown (TeardownStore i t) = True"
| "is_teardown (TeardownCallback i t) = True"
| "is_teardown e = False"

fun registered :: "event list \<Rightarrow> event list" where
  "registered [] = []"
| "registered (OnEditorMount st i (Some t) # es) = TeardownStore i t # registered es"
| "registered (OnMount i (Some t) # es) = TeardownCallback i t # registered es"
| "registered (e # es) = registered es"

text \<open>The events of one render at the boundary and the camera.\<close>

definition crash_events :: "rs_state \<Rightarrow> event list" where
  "crash_events s = (case crashingError s of None \<Rightarrow> [] | Some e \<Rightarrow> [Raise e])"

definition camera_events :: "nat \<Rightarrow> ref option \<Rightarrow> event list" where
  "camera_events i co = (case co of None \<Rightarrow> [] | Some cam \<Rightarrow> [SetCameraOptions i cam])"

text \<open>
  In the render that replaces the instance, the camera effect still belongs to the
  editor of that render, the one just disposed.
\<close>

definition stale_camera :: "rs_state \<Rightarrow> ref props \<Rightarrow> event list" where
  "stale_camera s p =
     (if cameraOptions p = cameraOptions (snd (last_render s)) then []
      else camera_events (constructed s - 1) (cameraOptions p))"

text \<open>The events of the cleanup of \<open>Layout\<close>, when it is in the tree.\<close>

definition layout_teardown :: "rs_state \<Rightarrow> event list" where
  "layout_teardown s = (case layout s of None \<Rightarrow> [] | Some l \<Rightarrow> teardown_events l)"

text \<open>The state of \<open>Layout\<close> after its effect ran for instance \<open>k\<close> of store \<open>store p\<close>.\<close>

definition recreated_layout :: "env \<Rightarrow> ref props \<Rightarrow> nat \<Rightarrow> layout_state" where
  "recreated_layout env p k =
     \<lparr> lay_editor = k, teardownStore = onEditorMount env (store p) k,
       teardownCallback = (case onMount p of None \<Rightarrow> None | Some f \<Rightarrow> f k) \<rparr>"

section \<open>The states of a run\<close>

text \<open>
  What holds of the hook state after every step of a run. The holder agrees with the
  dependencies of its effect; an instance not yet constructed has no crash value; while
  the component is mounted, the exposed editor is the instance constructed last, the
  registered cleanup disposes it, the dependencies are those of the last render, and
  \<open>Layout\<close> is in the tree exactly when that instance has not crashed.
\<close>

definition consistent :: "rs_state \<Rightarrow> bool" where
  "consistent s \<longleftrightarrow>
     deps_options s = Some (editorOptionsRef s) \<and>
     (\<forall>i. constructed s \<le> i \<longrightarrow> editor_crashingError s i = None) \<and>
     (if alive s then
        0 < constructed s \<and>
        editor s = Some (constructed s - 1) \<and>
        cleanup_recreate s = Some (constructed s - 1) \<and>
        deps_recreate s = Some (recreate_deps (fst (last_render s)) (snd (last_render s))) \<and>
        editorOptionsRef s = render_options (snd (last_render s)) \<and>
        deps_camera s = Some (Some (constructed s - 1), cameraOptions (snd (last_render s))) \<and>
        (layout s = None \<longleftrightarrow> editor_crashingError s (constructed s - 1) \<noteq> None) \<and>
        (\<forall>l. layout s = Some l \<longrightarrow> lay_editor l = constructed s - 1)
      else cleanup_recreate s = None \<and> layout s = None)"

section \<open>Examples\<close>

definition example_props :: "ref props" where
  "example_props =
     \<lparr> onMount = Some (\<lambda>i. Some 71), store = 1, tools = 2, shapeUtils = 3,
       bindingUtils = 4, user = 5, initialState = None, autoFocus = None,
       inferDarkMode = None, cameraOptions = Some 9, options = None, licenseKey = None \<rparr>"

definition example_hooks :: hooks where
  "example_hooks = \<lparr> container = 10, LoadingScreen = None \<rparr>"

definition example_env :: env where
  "example_env = \<lparr> new_Editor = (\<lambda>k a. None), onEditorMount = (\<lambda>st i. Some 70) \<rparr>"

text \<open>
  An environment in which the construction of the second instance throws.
\<close>

definition failing_env :: env where
  "failing_env =
     \<lparr> new_Editor = (\<lambda>k a. if k = 1 then Some (JsError 8) else None),
       onEditorMount = (\<lambda>st i. Some 70) \<rparr>"

text \<open>
  The props of the gate in the example, with a given store.
\<close>

definition gate_props :: "store_with_status \<Rightarrow> store_with_status props" where
  "gate_props st = with_store example_props st"

section \<open>Properties\<close>

subsection \<open>The effects, one by one\<close>

lemma options_effect_eq:
  "options_effect opts s = s\<lparr> editorOptionsRef := (if deps_options s = Some opts then editorOptionsRef s else opts),
     deps_options := Some opts \<rparr>"
  by (simp add: options_effect_def)

lemma camera_effect_eq:
  "camera_effect (Some i) co s =
     s\<lparr> deps_camera := Some (Some i, co),
        trace := trace s @ (if deps_camera s = Some (Some i, co) then [] else camera_events i co) \<rparr>"
  by (simp add: camera_effect_def camera_events_def split: option.splits)

lemma TldrawEditorWithReadyStore_same:
  assumes "consistent s" "alive s" "deps_recreate s = Some (recreate_deps c p)"
  shows "TldrawEditorWithReadyStore env c p s =
     s\<lparr> last_render := (c, p), editorOptionsRef := render_options p,
        deps_options := Some (render_options p),
        deps_camera := Some (editor s, cameraOptions p),
        trace := trace s @ crash_events s
          @ (if cameraOptions p = cameraOptions (snd (last_render s)) then []
             else camera_events (constructed s - 1) (cameraOptions p)) \<rparr>"
proof (cases "layout s")
  case None
  then obtain e where "editor_crashingError s (constructed s - 1) = Some e"
    using assms by (auto simp: consistent_def)
  then show ?thesis using assms None
    by (simp add: consistent_def TldrawEditorWithReadyStore_def Let_def render_tree_def
      crashingError_def layout_cleanups_def recreate_cleanup_def layout_effects_def
      options_effect_eq recreate_effect_def camera_effect_eq crash_events_def)
next
  case (Some l)
  then have "editor_crashingError s (constructed s - 1) = None" "lay_editor l = constructed s - 1"
    using assms by (auto simp: consistent_def)
  then show ?thesis using assms Some
    by (simp add: consistent_def TldrawEditorWithReadyStore_def Let_def render_tree_def
      crashingError_def layout_cleanups_def recreate_cleanup_def layout_effects_def
      options_effect_eq recreate_effect_def camera_effect_eq crash_events_def)
qed

lemma render_step_same:
  assumes "consistent s" "alive s" "deps_recreate s = Some (recreate_deps c p)"
  shows "render_step env c p s =
     s\<lparr> last_render := (c, p), editorOptionsRef := render_options p,
        deps_options := Some (render_options p),
        deps_camera := Some (editor s, cameraOptions p),
        trace := trace s @ crash_events s
          @ (if cameraOptions p = cameraOptions (snd (last_render s)) then []
             else camera_events (constructed s - 1) (cameraOptions p)) \<rparr>"
  using assms by (simp add: render_step_def Let_def TldrawEditorWithReadyStore_same)

lemma if_same_eq: "(if x = y then x else y) = y"
  by simp

lemma recreate_effect_ok:
  assumes "deps_recreate s \<noteq> Some (recreate_deps c p)"
    and "new_Editor env (constructed s) (editor_args_of c p (editorOptionsRef s)) = None"
  shows "recreate_effect env c p s =
     (None, s\<lparr> deps_recreate := Some (recreate_deps c p),
        cleanup_recreate := Some (constructed s),
        constructed := Suc (constructed s),
        editor_store := (editor_store s)(constructed s := store p),
        editor_crashingError := (editor_crashingError s)(constructed s := None),
        editor := Some (constructed s),
        trace := trace s @ [NewEditor (constructed s) (editor_args_of c p (editorOptionsRef s)),
             SetEditor (constructed s)] \<rparr>)"
  using assms by (simp add: recreate_effect_def Let_def)

lemma recreate_effect_throw:
  assumes "deps_recreate s \<noteq> Some (recreate_deps c p)"
    and "new_Editor env (constructed s) (editor_args_of c p (editorOptionsRef s)) = Some e"
  shows "recreate_effect env c p s =
     (Some e, s\<lparr> deps_recreate := Some (recreate_deps c p),
        trace := trace s @ [NewEditor (constructed s) (editor_args_of c p (editorOptionsRef s))] \<rparr>)"
  using assms by (simp add: recreate_effect_def Let_def)

lemma recreate_effect_same:
  assumes "deps_recreate s = Some (recreate_deps c p)"
  shows "recreate_effect env c p s = (None, s)"
  using assms by (simp add: recreate_effect_def)

lemma recreate_cleanup_changed:
  assumes "deps_recreate s \<noteq> Some key" "cleanup_recreate s = Some j"
  shows "recreate_cleanup key s = s\<lparr> cleanup_recreate := None, trace := trace s @ [Dispose j] \<rparr>"
  using assms by (simp add: recreate_cleanup_def)

lemma layout_cleanups_None: "layout s = None \<Longrightarrow> layout_cleanups out s = s"
  by (simp add: layout_cleanups_def)

lemma layout_cleanups_same:
  "layout s = Some l \<Longrightarrow> layout_cleanups (RLayout (lay_editor l)) s = s"
  by (simp add: layout_cleanups_def)

lemma layout_cleanups_other:
  "layout s = Some l \<Longrightarrow> out \<noteq> RLayout (lay_editor l) \<Longrightarrow>
   layout_cleanups out s = s\<lparr> layout := None, trace := trace s @ teardown_events l \<rparr>"
  by (simp add: layout_cleanups_def useOnMount_cleanup_def)

lemma layout_effects_crash: "layout_effects env p (RCrash e) s = s"
  by (simp add: layout_effects_def)

lemma layout_effects_null: "layout_effects env p RNull s = s"
  by (simp add: layout_effects_def)

lemma layout_effects_mounted: "layout s = Some l \<Longrightarrow> layout_effects env p (RLayout i) s = s"
  by (simp add: layout_effects_def)

lemma layout_effects_mount:
  "layout s = None \<Longrightarrow> layout_effects env p (RLayout i) s =
     s\<lparr> layout := Some \<lparr> lay_editor = i, teardownStore = onEditorMount env (editor_store s i) i,
            teardownCallback = (case onMount p of None \<Rightarrow> None | Some f \<Rightarrow> f i) \<rparr>,
        tldrawReady := True,
        trace := trace s @ mount_events env (editor_store s i) i (callback_events p i) \<rparr>"
  by (simp add: layout_effects_def useOnMount_effect_def Let_def mount_events_def
      callback_events_def split: option.splits)

lemma render_tree_crashed:
  "editor s = Some i \<Longrightarrow> editor_crashingError s i = Some e \<Longrightarrow> render_tree s = RCrash e"
  by (simp add: render_tree_def crashingError_def)

lemma render_tree_live:
  "editor s = Some i \<Longrightarrow> editor_crashingError s i = None \<Longrightarrow> render_tree s = RLayout i"
  by (simp add: render_tree_def crashingError_def)

lemma crash_events_crashed:
  "editor s = Some i \<Longrightarrow> editor_crashingError s i = Some e \<Longrightarrow> crash_events s = [Raise e]"
  by (simp add: crash_events_def crashingError_def)

lemma crash_events_live:
  "editor s = Some i \<Longrightarrow> editor_crashingError s i = None \<Longrightarrow> crash_events s = []"
  by (simp add: crash_events_def crashingError_def)

lemma TldrawEditorWithReadyStore_changed_ok:
  assumes "consistent s" "alive s" "deps_recreate s \<noteq> Some (recreate_deps c p)"
    and "new_Editor env (constructed s) (editor_args_of c p (render_options p)) = None"
  shows "TldrawEditorWithReadyStore env c p s =
     s\<lparr> last_render := (c, p), editorOptionsRef := render_options p,
        deps_options := Some (render_options p),
        deps_recreate := Some (recreate_deps c p),
        cleanup_recreate := Some (constructed s),
        constructed := Suc (constructed s),
        editor_store := (editor_store s)(constructed s := store p),
        editor_crashingError := (editor_crashingError s)(constructed s := None),
        editor := Some (constructed s),
        deps_camera := Some (editor s, cameraOptions p),
        trace := trace s @ crash_events s
          @ [Dispose (constructed s - 1),
             NewEditor (constructed s) (editor_args_of c p (render_options p)),
             SetEditor (constructed s)]
          @ (if cameraOptions p = cameraOptions (snd (last_render s)) then []
             else camera_events (constructed s - 1) (cameraOptions p)) \<rparr>"
proof -
  have ed: "editor s = Some (constructed s - 1)"
    and cl: "cleanup_recreate s = Some (constructed s - 1)"
    and dc: "deps_camera s = Some (Some (constructed s - 1), cameraOptions (snd (last_render s)))"
    and dopt: "deps_options s = Some (editorOptionsRef s)"
    using assms(1,2) by (simp_all add: consistent_def)
  show ?thesis
  proof (cases "layout s")
    case None
    then obtain e where e: "editor_crashingError s (constructed s - 1) = Some e"
      using assms(1,2) by (auto simp: consistent_def)
    show ?thesis
      using assms(3,4) None
      by (simp add: TldrawEditorWithReadyStore_def Let_def render_tree_crashed[OF ed e]
          crash_events_crashed[OF ed e] layout_cleanups_None layout_effects_crash
          recreate_cleanup_changed cl options_effect_eq if_same_eq recreate_effect_ok
          camera_effect_eq ed dc dopt)
  next
    case (Some l)
    then have e: "editor_crashingError s (constructed s - 1) = None"
      and l: "lay_editor l = constructed s - 1"
      using assms(1,2) by (auto simp: consistent_def)
    show ?thesis
      using assms(3,4) Some l
      by (simp add: TldrawEditorWithReadyStore_def Let_def render_tree_live[OF ed e]
          crash_events_live[OF ed e] layout_cleanups_def layout_effects_mounted
          recreate_cleanup_changed cl options_effect_eq if_same_eq recreate_effect_ok
          camera_effect_eq ed dc dopt)
  qed
qed

lemma TldrawEditorWithReadyStore_mounting:
  assumes "editor t = Some k" "editor_crashingError t k = None"
    and "deps_recreate t = Some (recreate_deps c p)"
    and "deps_options t = Some (render_options p)"
    and "deps_camera t = Some (ed, co)" "ed \<noteq> Some k"
    and "case layout t of None \<Rightarrow> True | Some l \<Rightarrow> lay_editor l \<noteq> k"
  shows "TldrawEditorWithReadyStore env c p t =
     t\<lparr> last_render := (c, p),
        deps_camera := Some (Some k, cameraOptions p),
        layout := Some (recreated_layout env (p\<lparr>store := editor_store t k\<rparr>) k),
        tldrawReady := True,
        trace := trace t @ layout_teardown t
          @ mount_events env (editor_store t k) k (callback_events p k)
          @ camera_events k (cameraOptions p) \<rparr>"
proof (cases "layout t")
  case None
  show ?thesis
    using assms(3-6) None
    by (simp add: TldrawEditorWithReadyStore_def Let_def render_tree_live[OF assms(1,2)]
        layout_cleanups_None layout_effects_mount recreate_cleanup_def
        options_effect_def recreate_effect_same camera_effect_eq assms(1)
        layout_teardown_def recreated_layout_def)
next
  case (Some l)
  then have l: "lay_editor l \<noteq> k" using assms(7) by simp
  show ?thesis
    using assms(3-6) Some l
    by (simp add: TldrawEditorWithReadyStore_def Let_def render_tree_live[OF assms(1,2)]
        layout_cleanups_other layout_effects_mount recreate_cleanup_def
        options_effect_def recreate_effect_same camera_effect_eq assms(1)
        layout_teardown_def recreated_layout_def)
qed

lemma render_step_changed_ok:
  assumes "consistent s" "alive s" "deps_recreate s \<noteq> Some (recreate_deps c p)"
    and "new_Editor env (constructed s) (editor_args_of c p (render_options p)) = None"
  shows "render_step env c p s =
     s\<lparr> last_render := (c, p), editorOptionsRef := render_options p,
        deps_options := Some (render_options p),
        deps_recreate := Some (recreate_deps c p),
        cleanup_recreate := Some (constructed s),
        constructed := Suc (constructed s),
        editor_store := (editor_store s)(constructed s := store p),
        editor_crashingError := (editor_crashingError s)(constructed s := None),
        editor := Some (constructed s),
        deps_camera := Some (Some (constructed s), cameraOptions p),
        layout := Some (recreated_layout env p (constructed s)),
        tldrawReady := True,
        trace := trace s @ crash_events s
          @ [Dispose (constructed s - 1),
             NewEditor (constructed s) (editor_args_of c p (render_options p)),
             SetEditor (constructed s)]
          @ stale_camera s p
          @ layout_teardown s
          @ mount_events env (store p) (constructed s) (callback_events p (constructed s))
          @ camera_events (constructed s) (cameraOptions p) \<rparr>"
proof -
  have ed: "editor s = Some (constructed s - 1)" and pos: "0 < constructed s"
    and lay: "case layout s of None \<Rightarrow> True | Some l \<Rightarrow> lay_editor l \<noteq> constructed s"
    using assms(1,2) by (auto simp: consistent_def split: option.splits)
  let ?t = "TldrawEditorWithReadyStore env c p s"
  note A = TldrawEditorWithReadyStore_changed_ok[OF assms]
  have B: "TldrawEditorWithReadyStore env c p ?t =
     ?t\<lparr> last_render := (c, p),
        deps_camera := Some (Some (constructed s), cameraOptions p),
        layout := Some (recreated_layout env (p\<lparr>store := editor_store ?t (constructed s)\<rparr>) (constructed s)),
        tldrawReady := True,
        trace := trace ?t @ layout_teardown ?t
          @ mount_events env (editor_store ?t (constructed s)) (constructed s) (callback_events p (constructed s))
          @ camera_events (constructed s) (cameraOptions p) \<rparr>"
    apply (rule TldrawEditorWithReadyStore_mounting[where ed="editor s" and co="cameraOptions p"])
    using ed pos lay by (simp_all add: A)
  have C: "alive ?t \<and> editor ?t \<noteq> editor s"
    using ed pos assms(2) by (simp add: A)
  have "render_step env c p s = TldrawEditorWithReadyStore env c p ?t"
    using C by (simp add: render_step_def Let_def)
  also note B
  finally show ?thesis
    by (simp add: A layout_teardown_def stale_camera_def recreated_layout_def)
qed

lemma unmount_eq:
  "unmount s =
     s\<lparr> alive := False, cleanup_recreate := None, layout := None,
        trace := trace s
          @ (case cleanup_recreate s of None \<Rightarrow> [] | Some j \<Rightarrow> [Dispose j])
          @ layout_teardown s \<rparr>"
  by (simp add: unmount_def useOnMount_cleanup_def layout_teardown_def Let_def
      split: option.splits)

lemma TldrawEditorWithReadyStore_changed_throw:
  assumes "consistent s" "alive s" "deps_recreate s \<noteq> Some (recreate_deps c p)"
    and "new_Editor env (constructed s) (editor_args_of c p (render_options p)) = Some e"
  shows "TldrawEditorWithReadyStore env c p s =
     s\<lparr> alive := False, last_render := (c, p), editorOptionsRef := render_options p,
        deps_options := Some (render_options p),
        deps_recreate := Some (recreate_deps c p),
        cleanup_recreate := None,
        layout := None,
        trace := trace s @ crash_events s
          @ [Dispose (constructed s - 1),
             NewEditor (constructed s) (editor_args_of c p (render_options p)),
             Raise e]
          @ layout_teardown s \<rparr>"
proof -
  have ed: "editor s = Some (constructed s - 1)"
    and cl: "cleanup_recreate s = Some (constructed s - 1)"
    and dopt: "deps_options s = Some (editorOptionsRef s)"
    using assms(1,2) by (simp_all add: consistent_def)
  show ?thesis
  proof (cases "layout s")
    case None
    then obtain e' where e: "editor_crashingError s (constructed s - 1) = Some e'"
      using assms(1,2) by (auto simp: consistent_def)
    show ?thesis
      using assms(3,4) None
      by (simp add: TldrawEditorWithReadyStore_def Let_def render_tree_crashed[OF ed e]
          crash_events_crashed[OF ed e] layout_cleanups_None layout_effects_crash
          recreate_cleanup_changed cl options_effect_eq if_same_eq recreate_effect_throw
          unmount_eq layout_teardown_def ed dopt)
  next
    case (Some l)
    then have e: "editor_crashingError s (constructed s - 1) = None"
      and l: "lay_editor l = constructed s - 1"
      using assms(1,2) by (auto simp: consistent_def)
    show ?thesis
      using assms(3,4) Some l
      by (simp add: TldrawEditorWithReadyStore_def Let_def render_tree_live[OF ed e]
          crash_events_live[OF ed e] layout_cleanups_def layout_effects_mounted
          recreate_cleanup_changed cl options_effect_eq if_same_eq recreate_effect_throw
          unmount_eq layout_teardown_def ed dopt)
  qed
qed

lemma render_step_changed_throw:
  assumes "consistent s" "alive s" "deps_recreate s \<noteq> Some (recreate_deps c p)"
    and "new_Editor env (constructed s) (editor_args_of c p (render_options p)) = Some e"
  shows "render_step env c p s =
     s\<lparr> alive := False, last_render := (c, p), editorOptionsRef := render_options p,
        deps_options := Some (render_options p),
        deps_recreate := Some (recreate_deps c p),
        cleanup_recreate := None,
        layout := None,
        trace := trace s @ crash_events s
          @ [Dispose (constructed s - 1),
             NewEditor (constructed s) (editor_args_of c p (render_options p)),
             Raise e]
          @ layout_teardown s \<rparr>"
  by (simp add: render_step_def Let_def TldrawEditorWithReadyStore_changed_throw[OF assms])

lemma mount_ok:
  assumes "new_Editor env 0 (editor_args_of c p (render_options p)) = None"
  shows "mount env c p =
     (initial c p)\<lparr> deps_options := Some (render_options p),
        deps_recreate := Some (recreate_deps c p),
        cleanup_recreate := Some 0,
        constructed := Suc 0,
        editor_store := (\<lambda>i. 0)(0 := store p),
        editor := Some 0,
        deps_camera := Some (Some 0, cameraOptions p),
        layout := Some (recreated_layout env p 0),
        tldrawReady := True,
        trace := [NewEditor 0 (editor_args_of c p (render_options p)), SetEditor 0]
          @ mount_events env (store p) 0 (callback_events p 0)
          @ camera_events 0 (cameraOptions p) \<rparr>"
proof -
  let ?t = "TldrawEditorWithReadyStore env c p (initial c p)"
  have A: "?t = (initial c p)\<lparr> deps_options := Some (render_options p),
        deps_recreate := Some (recreate_deps c p),
        cleanup_recreate := Some 0,
        constructed := Suc 0,
        editor_store := (\<lambda>i. 0)(0 := store p),
        editor := Some 0,
        deps_camera := Some (None, cameraOptions p),
        trace := [NewEditor 0 (editor_args_of c p (render_options p)), SetEditor 0] \<rparr>"
    using assms
    by (simp add: TldrawEditorWithReadyStore_def Let_def initial_def render_tree_def layout_cleanups_None
        layout_effects_null recreate_cleanup_def options_effect_def recreate_effect_def
        camera_effect_def)
  have B: "TldrawEditorWithReadyStore env c p ?t =
     ?t\<lparr> last_render := (c, p),
        deps_camera := Some (Some 0, cameraOptions p),
        layout := Some (recreated_layout env (p\<lparr>store := editor_store ?t 0\<rparr>) 0),
        tldrawReady := True,
        trace := trace ?t @ layout_teardown ?t
          @ mount_events env (editor_store ?t 0) 0 (callback_events p 0)
          @ camera_events 0 (cameraOptions p) \<rparr>"
    apply (rule TldrawEditorWithReadyStore_mounting[where ed="None" and co="cameraOptions p"])
    by (simp_all add: A) (simp_all add: initial_def)
  have "mount env c p = TldrawEditorWithReadyStore env c p ?t"
    by (simp add: mount_def render_step_def Let_def A) (simp add: initial_def)
  also note B
  finally show ?thesis
    by (simp add: A layout_teardown_def recreated_layout_def) (simp add: initial_def)
qed

lemma mount_throw:
  assumes "new_Editor env 0 (editor_args_of c p (render_options p)) = Some e"
  shows "mount env c p =
     (initial c p)\<lparr> alive := False, deps_options := Some (render_options p),
        deps_recreate := Some (recreate_deps c p),
        trace := [NewEditor 0 (editor_args_of c p (render_options p)), Raise e] \<rparr>"
  using assms
  by (simp add: mount_def render_step_def TldrawEditorWithReadyStore_def Let_def initial_def
      render_tree_def layout_cleanups_None
      layout_effects_null recreate_cleanup_def options_effect_def recreate_effect_def
      unmount_eq layout_teardown_def)

lemma render_step_crashed:
  assumes "alive t" "editor t = Some n" "editor_crashingError t n = Some e"
    and "deps_recreate t = Some (recreate_deps c p)"
  shows "render_step env c p t =
     t\<lparr> last_render := (c, p),
        editorOptionsRef := (if deps_options t = Some (render_options p) then editorOptionsRef t
                             else render_options p),
        deps_options := Some (render_options p),
        deps_camera := Some (Some n, cameraOptions p),
        layout := None,
        trace := trace t @ [Raise e] @ layout_teardown t
          @ (if deps_camera t = Some (Some n, cameraOptions p) then []
             else camera_events n (cameraOptions p)) \<rparr>"
proof -
  have out: "render_tree t = RCrash e"
    using assms(2,3) by (rule render_tree_crashed)
  let ?rhs = "t\<lparr> last_render := (c, p),
        editorOptionsRef := (if deps_options t = Some (render_options p) then editorOptionsRef t
                             else render_options p),
        deps_options := Some (render_options p),
        deps_camera := Some (Some n, cameraOptions p),
        layout := None,
        trace := trace t @ [Raise e] @ layout_teardown t
          @ (if deps_camera t = Some (Some n, cameraOptions p) then []
             else camera_events n (cameraOptions p)) \<rparr>"
  have "TldrawEditorWithReadyStore env c p t = ?rhs"
  proof (cases "layout t")
    case None
    then show ?thesis using assms(1,2,4)
      by (simp add: TldrawEditorWithReadyStore_def Let_def out layout_cleanups_None layout_effects_crash
          recreate_cleanup_def options_effect_eq recreate_effect_same camera_effect_eq
          layout_teardown_def)
  next
    case (Some l)
    then show ?thesis using assms(1,2,4)
      by (simp add: TldrawEditorWithReadyStore_def Let_def out layout_cleanups_other layout_effects_crash
          recreate_cleanup_def options_effect_eq recreate_effect_same camera_effect_eq
          layout_teardown_def)
  qed
  then show ?thesis
    using assms(2) by (simp add: render_step_def Let_def)
qed

lemma consistent_mount: "consistent (mount env c p)"
proof (cases "new_Editor env 0 (editor_args_of c p (render_options p))")
  case None
  show ?thesis
    by (simp add: mount_ok[OF None] consistent_def recreated_layout_def) (simp add: initial_def)
next
  case (Some e)
  show ?thesis
    by (simp add: mount_throw[OF Some] consistent_def) (simp add: initial_def)
qed

lemma consistent_render_step:
  assumes "consistent s" "alive s"
  shows "consistent (render_step env c p s)"
proof (cases "deps_recreate s = Some (recreate_deps c p)")
  case True
  show ?thesis
    using assms True
    by (simp add: render_step_same[OF assms True] consistent_def)
next
  case False
  show ?thesis
  proof (cases "new_Editor env (constructed s) (editor_args_of c p (render_options p))")
    case None
    show ?thesis
      using assms
      by (simp add: render_step_changed_ok[OF assms False None] consistent_def
          recreated_layout_def)
  next
    case (Some e)
    show ?thesis
      using assms
      by (simp add: render_step_changed_throw[OF assms False Some] consistent_def)
  qed
qed

lemma consistent_unmount: "consistent s \<Longrightarrow> consistent (unmount s)"
  by (simp add: unmount_eq consistent_def)

lemma consistent_crash_other:
  assumes "consistent s" "i < constructed s" "\<not> (alive s \<and> editor s = Some i)"
  shows "consistent (crash i e s)"
  using assms by (auto simp: crash_def consistent_def split: option.splits)

lemma consistent_step:
  assumes "consistent s"
  shows "consistent (step env a s)"
proof (cases a)
  case (Render c p)
  then show ?thesis using assms by (simp add: consistent_render_step)
next
  case Unmount
  then show ?thesis using assms by (simp add: consistent_unmount)
next
  case (CrashEv i e)
  show ?thesis
  proof (cases "i < constructed s")
    case False
    then show ?thesis using assms CrashEv by simp
  next
    case lt: True
    show ?thesis
    proof (cases "alive s \<and> editor s = Some i")
      case False
      then have "step env a s = crash i e s"
        using CrashEv lt by (auto simp: Let_def)
      then show ?thesis using consistent_crash_other[OF assms lt False] by simp
    next
      case True
      then have i: "i = constructed s - 1" and al: "alive s" and ed: "editor s = Some i"
        using assms by (auto simp: consistent_def)
      let ?t = "crash i e s"
      have key: "deps_recreate ?t = Some (recreate_deps (fst (last_render s)) (snd (last_render s)))"
        using assms al by (simp add: crash_def consistent_def)
      have R: "render_step env (fst (last_render s)) (snd (last_render s)) ?t = 
          ?t\<lparr> layout := None,
             trace := trace ?t @ [Raise e] @ layout_teardown ?t \<rparr>"
        using assms al i
        by (subst render_step_crashed[where n=i and e=e])
          (simp_all add: crash_def consistent_def key[simplified crash_def])
      have C: "consistent ?t" if "layout s = None"
        using assms al i that by (auto simp: crash_def consistent_def)
      show ?thesis
      proof (cases "crashingError ?t \<noteq> crashingError s")
        case True
        then have "step env a s = render_step env (fst (last_render s)) (snd (last_render s)) ?t"
          using CrashEv lt al ed by (simp add: Let_def)
        then have S: "step env a s = ?t\<lparr> layout := None,
             trace := trace ?t @ [Raise e] @ layout_teardown ?t \<rparr>"
          by (simp only: R)
        show ?thesis
          unfolding S using assms al i by (auto simp: crash_def consistent_def)
      next
        case False
        then have same: "editor_crashingError s i = Some e"
          using ed by (simp add: crashingError_def crash_def)
        then have "layout s = None"
          using assms al i by (auto simp: consistent_def split: option.splits)
        moreover have "step env a s = ?t"
          using CrashEv lt False by (simp add: Let_def)
        ultimately show ?thesis using C by simp
      qed
    qed
  qed
qed

lemma consistent_run: "consistent (run env c p acts)"
  unfolding run_def
  by (induction acts rule: rev_induct) (simp_all add: consistent_mount consistent_step)

lemma lifecycle_of_append: "lifecycle_of (xs @ ys) = lifecycle_of xs @ lifecycle_of ys"
  by (induction xs rule: lifecycle_of.induct) simp_all

lemma registered_append: "registered (xs @ ys) = registered xs @ registered ys"
  by (induction xs rule: registered.induct) simp_all

lemma recreation_free:
  "filter is_recreation (crash_events s) = []"
  "filter is_recreation (camera_events i co) = []"
  "filter is_recreation (stale_camera s p) = []"
  "filter is_recreation (teardown_events l) = []"
  "filter is_recreation (layout_teardown s) = []"
  "filter is_recreation (mount_events env st i (callback_events p i)) = []"
  by (simp_all add: crash_events_def camera_events_def stale_camera_def teardown_events_def
      layout_teardown_def mount_events_def callback_events_def split: option.splits)

lemma lifecycle_free:
  "lifecycle_of (crash_events s) = []"
  "lifecycle_of (camera_events i co) = []"
  "lifecycle_of (stale_camera s p) = []"
  "lifecycle_of (teardown_events l) = []"
  "lifecycle_of (layout_teardown s) = []"
  "lifecycle_of (mount_events env st i (callback_events p i)) = []"
  by (simp_all add: crash_events_def camera_events_def stale_camera_def teardown_events_def
      layout_teardown_def mount_events_def callback_events_def split: option.splits)



lemma teardown_free:
  "filter is_teardown (crash_events s) = []"
  "filter is_teardown (camera_events i co) = []"
  "filter is_teardown (stale_camera s p) = []"
  "filter is_teardown (mount_events env st i (callback_events p i)) = []"
  by (simp_all add: crash_events_def camera_events_def stale_camera_def 
      mount_events_def callback_events_def split: option.splits)

lemma teardown_kept:
  "filter is_teardown (teardown_events l) = teardown_events l"
  "filter is_teardown (layout_teardown s) = layout_teardown s"
  by (simp_all add: teardown_events_def layout_teardown_def split: option.splits)

lemma registered_free:
  "registered (crash_events s) = []"
  "registered (camera_events i co) = []"
  "registered (stale_camera s p) = []"
  "registered (teardown_events l) = []"
  "registered (layout_teardown s) = []"
  by (simp_all add: crash_events_def camera_events_def stale_camera_def teardown_events_def
      layout_teardown_def split: option.splits)

lemma registered_mount_events:
  "registered (mount_events env (store p) i (callback_events p i)) =
     teardown_events (recreated_layout env p i)"
  by (simp add: mount_events_def callback_events_def teardown_events_def recreated_layout_def
      split: option.splits)

subsection \<open>The events of a render, case by case\<close>

lemma new_events_dead: "\<not> alive s \<Longrightarrow> new_events env (Render c p) s = []"
  by (simp add: new_events_def)

lemma new_events_same:
  assumes "consistent s" "alive s" "deps_recreate s = Some (recreate_deps c p)"
  shows "new_events env (Render c p) s = crash_events s @ stale_camera s p"
  using assms(2) by (simp add: new_events_def render_step_same[OF assms] stale_camera_def)

lemma new_events_changed_ok:
  assumes "consistent s" "alive s" "deps_recreate s \<noteq> Some (recreate_deps c p)"
    and "new_Editor env (constructed s) (editor_args_of c p (render_options p)) = None"
  shows "new_events env (Render c p) s =
     crash_events s
     @ [Dispose (constructed s - 1),
        NewEditor (constructed s) (editor_args_of c p (render_options p)),
        SetEditor (constructed s)]
     @ stale_camera s p @ layout_teardown s
     @ mount_events env (store p) (constructed s) (callback_events p (constructed s))
     @ camera_events (constructed s) (cameraOptions p)"
  using assms(2) by (simp add: new_events_def render_step_changed_ok[OF assms])

lemma new_events_changed_throw:
  assumes "consistent s" "alive s" "deps_recreate s \<noteq> Some (recreate_deps c p)"
    and "new_Editor env (constructed s) (editor_args_of c p (render_options p)) = Some e"
  shows "new_events env (Render c p) s =
     crash_events s
     @ [Dispose (constructed s - 1),
        NewEditor (constructed s) (editor_args_of c p (render_options p)),
        Raise e]
     @ layout_teardown s"
  using assms(2) by (simp add: new_events_def render_step_changed_throw[OF assms])

lemma recreations_render:
  assumes "consistent s" "alive s"
  shows "filter is_recreation (new_events env (Render c p) s) =
     (if deps_recreate s = Some (recreate_deps c p) then []
      else [Dispose (constructed s - 1),
            NewEditor (constructed s) (editor_args_of c p (render_options p))])"
proof (cases "deps_recreate s = Some (recreate_deps c p)")
  case True
  then show ?thesis
    by (simp add: new_events_same[OF assms True] recreation_free)
next
  case False
  show ?thesis
  proof (cases "new_Editor env (constructed s) (editor_args_of c p (render_options p))")
    case None
    show ?thesis using False
      by (simp add: new_events_changed_ok[OF assms False None] recreation_free)
  next
    case (Some e)
    show ?thesis using False
      by (simp add: new_events_changed_throw[OF assms False Some] recreation_free)
  qed
qed

lemma recreations_mount:
  "filter is_recreation (trace (mount env c p)) =
     [NewEditor 0 (editor_args_of c p (render_options p))]"
proof (cases "new_Editor env 0 (editor_args_of c p (render_options p))")
  case None
  show ?thesis by (simp add: mount_ok[OF None] recreation_free)
next
  case (Some e)
  show ?thesis by (simp add: mount_throw[OF Some])
qed

lemma NewEditor_recreation:
  "NewEditor k a \<in> set es \<longleftrightarrow> NewEditor k a \<in> set (filter is_recreation es)"
  by simp

lemma example_mount:
  "mount example_env example_hooks example_props =
     (initial example_hooks example_props)\<lparr> deps_options := Some (render_options example_props),
        deps_recreate := Some (recreate_deps example_hooks example_props),
        cleanup_recreate := Some 0,
        constructed := Suc 0,
        editor_store := (\<lambda>i. 0)(0 := store example_props),
        editor := Some 0,
        deps_camera := Some (Some 0, cameraOptions example_props),
        layout := Some (recreated_layout example_env example_props 0),
        tldrawReady := True,
        trace := [NewEditor 0 (editor_args_of example_hooks example_props (render_options example_props)), SetEditor 0]
          @ mount_events example_env (store example_props) 0 (callback_events example_props 0)
          @ camera_events 0 (cameraOptions example_props) \<rparr>"
  by (rule mount_ok) (simp add: example_env_def)

lemma example_alive: "alive (run example_env example_hooks example_props [])"
  by (simp add: run_def example_mount) (simp add: initial_def)

lemma example_last_render:
  "last_render (run example_env example_hooks example_props []) = (example_hooks, example_props)"
  by (simp add: run_def example_mount) (simp add: initial_def)

lemma render_step_extends:
  assumes "consistent s" "alive s"
  shows "\<exists>es. trace (render_step env c p s) = trace s @ es"
proof (cases "deps_recreate s = Some (recreate_deps c p)")
  case True
  show ?thesis by (simp add: render_step_same[OF assms True])
next
  case False
  show ?thesis
  proof (cases "new_Editor env (constructed s) (editor_args_of c p (render_options p))")
    case None
    show ?thesis by (simp add: render_step_changed_ok[OF assms False None])
  next
    case (Some e)
    show ?thesis by (simp add: render_step_changed_throw[OF assms False Some])
  qed
qed

lemma crash_step_eq:
  assumes "consistent s" "i < constructed s"
  shows "step env (CrashEv i e) s =
     (if alive s \<and> editor s = Some i \<and> editor_crashingError s i \<noteq> Some e
      then s\<lparr> editor_crashingError := (editor_crashingError s)(i := Some e),
              layout := None,
              trace := trace s @ [Emit i ''crash'', Raise e] @ layout_teardown s \<rparr>
      else s\<lparr> editor_crashingError := (editor_crashingError s)(i := Some e),
              trace := trace s @ [Emit i ''crash''] \<rparr>)"
proof (cases "alive s \<and> editor s = Some i \<and> editor_crashingError s i \<noteq> Some e")
  case True
  then have al: "alive s" and ed: "editor s = Some i" by simp_all
  let ?t = "crash i e s"
  have ch: "crashingError ?t \<noteq> crashingError s"
    using True by (auto simp: crashingError_def crash_def)
  have key: "deps_recreate ?t = Some (recreate_deps (fst (last_render s)) (snd (last_render s)))"
    using assms al by (simp add: crash_def consistent_def)
  have dc: "deps_camera s = Some (Some i, cameraOptions (snd (last_render s)))"
    and dopt: "deps_options s = Some (render_options (snd (last_render s)))"
    using assms(1) al ed by (auto simp: consistent_def)
  have R: "render_step env (fst (last_render s)) (snd (last_render s)) ?t =
      ?t\<lparr> layout := None, trace := trace ?t @ [Raise e] @ layout_teardown ?t \<rparr>"
    using al ed dc dopt
    by (subst render_step_crashed[where n=i and e=e])
      (simp_all add: crash_def key[simplified crash_def])
  have "step env (CrashEv i e) s = render_step env (fst (last_render s)) (snd (last_render s)) ?t"
    using assms(2) al ed ch by (simp add: Let_def)
  then have S: "step env (CrashEv i e) s =
      ?t\<lparr> layout := None, trace := trace ?t @ [Raise e] @ layout_teardown ?t \<rparr>"
    by (simp only: R)
  show ?thesis
    unfolding S by (simp only: True if_True) (simp add: crash_def layout_teardown_def)
next
  case False
  then have "\<not> (alive s \<and> editor s = Some i \<and> crashingError (crash i e s) \<noteq> crashingError s)"
    by (auto simp: crashingError_def crash_def)
  then have S: "step env (CrashEv i e) s = crash i e s"
    using assms(2) by (auto simp: Let_def)
  show ?thesis unfolding S by (simp only: False if_False crash_def)
qed

lemma step_extends:
  assumes "consistent s"
  shows "\<exists>es. trace (step env a s) = trace s @ es"
proof (cases a)
  case (Render c p)
  then show ?thesis using render_step_extends[OF assms] by simp
next
  case Unmount
  then show ?thesis by (simp add: unmount_eq)
next
  case (CrashEv i e)
  show ?thesis
  proof (cases "i < constructed s")
    case True
    show ?thesis unfolding CrashEv crash_step_eq[OF assms True] by simp
  next
    case False
    then show ?thesis using CrashEv by simp
  qed
qed

lemma step_trace:
  assumes "consistent s"
  shows "trace (step env a s) = trace s @ new_events env a s"
proof -
  obtain es where "trace (step env a s) = trace s @ es"
    using step_extends[OF assms] by blast
  then show ?thesis by (simp add: new_events_def)
qed

lemma new_events_unmount:
  "alive s \<Longrightarrow> new_events env Unmount s =
     (case cleanup_recreate s of None \<Rightarrow> [] | Some j \<Rightarrow> [Dispose j]) @ layout_teardown s"
  by (simp add: new_events_def unmount_eq)

lemma new_events_crash:
  assumes "consistent s" "i < constructed s"
  shows "new_events env (CrashEv i e) s =
     (if alive s \<and> editor s = Some i \<and> editor_crashingError s i \<noteq> Some e
      then [Emit i ''crash'', Raise e] @ layout_teardown s
      else [Emit i ''crash''])"
  unfolding new_events_def crash_step_eq[OF assms] by simp

lemma new_events_crash_none:
  "\<not> i < constructed s \<Longrightarrow> new_events env (CrashEv i e) s = []"
  by (simp add: new_events_def)

lemma new_events_dead_unmount: "\<not> alive s \<Longrightarrow> new_events env Unmount s = []"
  by (simp add: new_events_def)

lemma run_nil_ok:
  assumes "new_Editor env 0 (editor_args_of c p (render_options p)) = None"
  shows "alive (run env c p [])" "last_render (run env c p []) = (c, p)"
    "editor (run env c p []) = Some 0" "constructed (run env c p []) = Suc 0"
    "deps_recreate (run env c p []) = Some (recreate_deps c p)"
    "layout (run env c p []) = Some (recreated_layout env p 0)"
    "editor_crashingError (run env c p []) = (\<lambda>i. None)"
    "cleanup_recreate (run env c p []) = Some 0"
    "trace (run env c p []) =
       [NewEditor 0 (editor_args_of c p (render_options p)), SetEditor 0]
       @ mount_events env (store p) 0 (callback_events p 0)
       @ camera_events 0 (cameraOptions p)"
  by (simp_all add: run_def mount_ok[OF assms]) (simp_all add: initial_def)

lemma SetEditor_notin:
  "SetEditor k \<notin> set (crash_events s)"
  "SetEditor k \<notin> set (camera_events i co)"
  "SetEditor k \<notin> set (stale_camera s p)"
  "SetEditor k \<notin> set (teardown_events l)"
  "SetEditor k \<notin> set (layout_teardown s)"
  "SetEditor k \<notin> set (mount_events env st i (callback_events p i))"
  by (simp_all add: crash_events_def camera_events_def stale_camera_def teardown_events_def
      layout_teardown_def mount_events_def callback_events_def split: option.splits)

lemma dead_step:
  assumes "\<not> alive s"
  shows "\<not> alive (step env a s) \<and> layout (step env a s) = layout s
     \<and> editor (step env a s) = editor s \<and> constructed (step env a s) = constructed s
     \<and> (SetEditor k \<in> set (trace (step env a s)) \<longleftrightarrow> SetEditor k \<in> set (trace s))"
  using assms by (cases a) (simp_all add: Let_def crash_def)

lemma dead_run:
  assumes "\<not> alive s"
  shows "\<not> alive (foldl (\<lambda>s a. step env a s) s later)
     \<and> layout (foldl (\<lambda>s a. step env a s) s later) = layout s
     \<and> editor (foldl (\<lambda>s a. step env a s) s later) = editor s
     \<and> constructed (foldl (\<lambda>s a. step env a s) s later) = constructed s
     \<and> (SetEditor k \<in> set (trace (foldl (\<lambda>s a. step env a s) s later))
          \<longleftrightarrow> SetEditor k \<in> set (trace s))"
  using assms
proof (induction later arbitrary: s)
  case Nil
  then show ?case by simp
next
  case (Cons a later)
  from dead_step[OF Cons.prems, of env a k] Cons.IH[of "step env a s"]
  show ?case by simp
qed

lemma constructed_step:
  assumes "consistent s"
  shows "constructed s \<le> constructed (step env a s)"
proof (cases a)
  case (Render c p)
  show ?thesis
  proof (cases "alive s")
    case False
    then show ?thesis using Render by simp
  next
    case al: True
    show ?thesis
    proof (cases "deps_recreate s = Some (recreate_deps c p)")
      case True
      show ?thesis using al Render by (simp add: render_step_same[OF assms al True])
    next
      case False
      show ?thesis
      proof (cases "new_Editor env (constructed s) (editor_args_of c p (render_options p))")
        case None
        show ?thesis using al Render
          by (simp add: render_step_changed_ok[OF assms al False None])
      next
        case (Some e)
        show ?thesis using al Render
          by (simp add: render_step_changed_throw[OF assms al False Some])
      qed
    qed
  qed
next
  case Unmount
  then show ?thesis by (simp add: unmount_eq)
next
  case (CrashEv i e)
  show ?thesis
  proof (cases "i < constructed s")
    case True
    show ?thesis unfolding CrashEv crash_step_eq[OF assms True] by simp
  next
    case False
    then show ?thesis using CrashEv by simp
  qed
qed

lemma SetEditor_step:
  assumes "consistent s" "SetEditor k \<in> set (new_events env a s)"
  shows "k < constructed (step env a s)"
proof (cases a)
  case (Render c p)
  show ?thesis
  proof (cases "alive s")
    case False
    then show ?thesis using Render assms(2) by (simp add: new_events_dead)
  next
    case al: True
    show ?thesis
    proof (cases "deps_recreate s = Some (recreate_deps c p)")
      case True
      show ?thesis using assms(2) unfolding Render
        by (simp add: new_events_same[OF assms(1) al True] SetEditor_notin)
    next
      case False
      show ?thesis
      proof (cases "new_Editor env (constructed s) (editor_args_of c p (render_options p))")
        case None
        show ?thesis using assms(2) al unfolding Render
          by (simp add: new_events_changed_ok[OF assms(1) al False None] SetEditor_notin
              render_step_changed_ok[OF assms(1) al False None])
      next
        case (Some e)
        show ?thesis using assms(2) al unfolding Render
          by (simp add: new_events_changed_throw[OF assms(1) al False Some] SetEditor_notin)
      qed
    qed
  qed
next
  case Unmount
  then show ?thesis using assms(2)
    by (cases "alive s")
      (simp_all add: new_events_unmount new_events_dead_unmount SetEditor_notin
        split: option.splits)
next
  case (CrashEv i e)
  show ?thesis
  proof (cases "i < constructed s")
    case True
    show ?thesis using assms(2) unfolding CrashEv
      by (simp add: new_events_crash[OF assms(1) True] SetEditor_notin split: if_splits)
  next
    case False
    then show ?thesis using assms(2) CrashEv by (simp add: new_events_crash_none)
  qed
qed

lemma SetEditor_bound:
  "SetEditor k \<in> set (trace (run env c p acts)) \<Longrightarrow> k < constructed (run env c p acts)"
proof (induction acts rule: rev_induct)
  case Nil
  show ?case
  proof (cases "new_Editor env 0 (editor_args_of c p (render_options p))")
    case None
    show ?thesis using Nil by (simp add: run_nil_ok[OF None] SetEditor_notin)
  next
    case (Some e)
    then show ?thesis using Nil by (simp add: run_def mount_throw[OF Some])
  qed
next
  case (snoc a acts)
  let ?s = "run env c p acts"
  have con: "consistent ?s" by (rule consistent_run)
  have r: "run env c p (acts @ [a]) = step env a ?s" by (simp add: run_def)
  from snoc.prems have "SetEditor k \<in> set (trace ?s) \<or> SetEditor k \<in> set (new_events env a ?s)"
    by (simp add: r step_trace[OF con])
  then show ?case
  proof
    assume "SetEditor k \<in> set (trace ?s)"
    then have "k < constructed ?s" by (rule snoc.IH)
    then show ?thesis using constructed_step[OF con, of env a] by (simp add: r)
  next
    assume "SetEditor k \<in> set (new_events env a ?s)"
    then show ?thesis using SetEditor_step[OF con] by (simp add: r)
  qed
qed

lemma crash_monotone:
  assumes "consistent s" "editor_crashingError s i \<noteq> None"
  shows "editor_crashingError (step env a s) i \<noteq> None"
proof (cases a)
  case (Render c p)
  show ?thesis
  proof (cases "alive s")
    case False
    then show ?thesis using Render assms(2) by simp
  next
    case al: True
    show ?thesis
    proof (cases "deps_recreate s = Some (recreate_deps c p)")
      case True
      show ?thesis using al Render assms(2) by (simp add: render_step_same[OF assms(1) al True])
    next
      case False
      have i: "i \<noteq> constructed s"
        using assms by (auto simp: consistent_def)
      show ?thesis
      proof (cases "new_Editor env (constructed s) (editor_args_of c p (render_options p))")
        case None
        show ?thesis using al Render assms(2) i
          by (simp add: render_step_changed_ok[OF assms(1) al False None])
      next
        case (Some e)
        show ?thesis using al Render assms(2)
          by (simp add: render_step_changed_throw[OF assms(1) al False Some])
      qed
    qed
  qed
next
  case Unmount
  then show ?thesis using assms(2) by (simp add: unmount_eq)
next
  case (CrashEv j e)
  show ?thesis
  proof (cases "j < constructed s")
    case True
    show ?thesis using assms(2) unfolding CrashEv crash_step_eq[OF assms(1) True] by simp
  next
    case False
    then show ?thesis using CrashEv assms(2) by simp
  qed
qed

lemma crashed_step:
  assumes "consistent s" "alive s" "editor s = Some i" "editor_crashingError s i \<noteq> None"
    and "deps_recreate s = Some k" "keeps_identity k a"
  shows "alive (step env a s) \<and> editor (step env a s) = Some i
     \<and> deps_recreate (step env a s) = Some k"
proof (cases a)
  case (Render c p)
  then have key: "deps_recreate s = Some (recreate_deps c p)"
    using assms(5,6) by simp
  show ?thesis using assms(2,3,5) Render
    by (simp add: render_step_same[OF assms(1,2) key])
next
  case Unmount
  then show ?thesis using assms(6) by simp
next
  case (CrashEv j e)
  show ?thesis
  proof (cases "j < constructed s")
    case True
    show ?thesis using assms(2,3,5) unfolding CrashEv crash_step_eq[OF assms(1) True] by simp
  next
    case False
    then show ?thesis using CrashEv assms(2,3,5) by simp
  qed
qed

lemma crashed_run:
  assumes "consistent s" "alive s" "editor s = Some i" "editor_crashingError s i \<noteq> None"
    and "deps_recreate s = Some k" "\<forall>a\<in>set later. keeps_identity k a"
  shows "alive (foldl (\<lambda>s a. step env a s) s later)
     \<and> editor (foldl (\<lambda>s a. step env a s) s later) = Some i
     \<and> editor_crashingError (foldl (\<lambda>s a. step env a s) s later) i \<noteq> None"
  using assms
proof (induction later arbitrary: s)
  case Nil
  then show ?case by simp
next
  case (Cons a later)
  have 1: "consistent (step env a s)" using Cons.prems(1) by (rule consistent_step)
  have 2: "alive (step env a s) \<and> editor (step env a s) = Some i
     \<and> deps_recreate (step env a s) = Some k"
    using crashed_step[OF Cons.prems(1-5)] Cons.prems(6) by simp
  have 3: "editor_crashingError (step env a s) i \<noteq> None"
    using crash_monotone[OF Cons.prems(1,4)] .
  have 4: "\<forall>a\<in>set later. keeps_identity k a" using Cons.prems(6) by simp
  show ?case
    using Cons.IH[OF 1 _ _ 3 _ 4] 2 by simp
qed

lemma generations_Suc:
  "generations (Suc n) = generations n @ [Disposes n, Constructs (Suc n)]"
  by (simp add: generations_def)

lemma generations_counts:
  "length (filter is_disposal (generations n)) = n
   \<and> length (filter (\<lambda>x. \<not> is_disposal x) (generations n)) = Suc n"
  by (induction n) (simp_all add: generations_Suc, simp add: generations_def)

lemma alive_step_back: "alive (step env a s) \<Longrightarrow> alive s"
  using dead_step[of s env a 0] by blast

lemma alive_run_back:
  "alive (foldl (\<lambda>s a. step env a s) s later) \<Longrightarrow> alive s"
  using dead_run[of s env later 0] by blast

lemma lifecycle_step:
  assumes "consistent s" "alive (step env a s)"
  shows "lifecycle_of (new_events env a s) =
     (if constructed (step env a s) = constructed s then []
      else [Disposes (constructed s - 1), Constructs (constructed s)])
   \<and> (constructed (step env a s) = constructed s
       \<or> constructed (step env a s) = Suc (constructed s))"
proof -
  have al: "alive s" using assms(2) by (rule alive_step_back)
  show ?thesis
  proof (cases a)
    case (Render c p)
    show ?thesis
    proof (cases "deps_recreate s = Some (recreate_deps c p)")
      case True
      show ?thesis using al unfolding Render
        by (simp add: new_events_same[OF assms(1) al True] lifecycle_of_append lifecycle_free
            render_step_same[OF assms(1) al True])
    next
      case False
      show ?thesis
      proof (cases "new_Editor env (constructed s) (editor_args_of c p (render_options p))")
        case None
        show ?thesis using al unfolding Render
          by (simp add: new_events_changed_ok[OF assms(1) al False None] lifecycle_of_append
              lifecycle_free render_step_changed_ok[OF assms(1) al False None])
      next
        case (Some e)
        have "\<not> alive (step env a s)" using al unfolding Render
          by (simp add: render_step_changed_throw[OF assms(1) al False Some])
        then show ?thesis using assms(2) by simp
      qed
    qed
  next
    case Unmount
    then show ?thesis using assms(2) al by (simp add: unmount_eq)
  next
    case (CrashEv i e)
    show ?thesis
    proof (cases "i < constructed s")
      case True
      show ?thesis
        unfolding CrashEv new_events_crash[OF assms(1) True] crash_step_eq[OF assms(1) True]
        by (simp add: lifecycle_free)
    next
      case False
      then show ?thesis using CrashEv by (simp add: new_events_crash_none)
    qed
  qed
qed

lemma lifecycle_run:
  "alive (run env c p acts) \<Longrightarrow>
   0 < constructed (run env c p acts) \<and>
   lifecycle_of (trace (run env c p acts)) = generations (constructed (run env c p acts) - 1)"
proof (induction acts rule: rev_induct)
  case Nil
  show ?case
  proof (cases "new_Editor env 0 (editor_args_of c p (render_options p))")
    case None
    show ?thesis
      by (simp add: run_nil_ok[OF None] lifecycle_of_append lifecycle_free generations_def)
  next
    case (Some e)
    then show ?thesis using Nil by (simp add: run_def mount_throw[OF Some])
  qed
next
  case (snoc a acts)
  let ?s = "run env c p acts"
  have r: "run env c p (acts @ [a]) = step env a ?s" by (simp add: run_def)
  have con: "consistent ?s" by (rule consistent_run)
  have al': "alive (step env a ?s)" using snoc.prems by (simp only: r)
  have al: "alive ?s" using al' by (rule alive_step_back)
  note IH = snoc.IH[OF al]
  from IH obtain n where n: "constructed ?s = Suc n" by (cases "constructed ?s") auto
  from lifecycle_step[OF con al'] IH n
  show ?case
    by (auto simp only: r step_trace[OF con] lifecycle_of_append generations_Suc
        diff_Suc_1 split: if_splits) 
qed

lemma constructed_changes:
  assumes "consistent s" "alive s" "deps_recreate s = Some k"
    and "alive (foldl (\<lambda>s a. step env a s) s later)"
  shows "constructed (foldl (\<lambda>s a. step env a s) s later) = constructed s + identity_changes k later"
  using assms
proof (induction later arbitrary: s k)
  case Nil
  then show ?case by simp
next
  case (Cons a later)
  let ?t = "step env a s"
  have al': "alive ?t" using Cons.prems(4) alive_run_back[of env ?t later] by simp
  have con': "consistent ?t" using Cons.prems(1) by (rule consistent_step)
  show ?case
  proof (cases a)
    case (Render c p)
    show ?thesis
    proof (cases "deps_recreate s = Some (recreate_deps c p)")
      case True
      have t: "constructed ?t = constructed s" "deps_recreate ?t = Some k"
        using Cons.prems(2,3) unfolding Render
        by (simp_all add: render_step_same[OF Cons.prems(1,2) True])
      have k: "recreate_deps c p = k" using True Cons.prems(3) by simp
      show ?thesis
        using Cons.IH[OF con' al' t(2)] Cons.prems(4) t(1) k Render by simp
    next
      case False
      have k: "recreate_deps c p \<noteq> k" using False Cons.prems(3) by simp
      show ?thesis
      proof (cases "new_Editor env (constructed s) (editor_args_of c p (render_options p))")
        case None
        have t: "constructed ?t = Suc (constructed s)"
          "deps_recreate ?t = Some (recreate_deps c p)"
          using Cons.prems(2) unfolding Render
          by (simp_all add: render_step_changed_ok[OF Cons.prems(1,2) False None])
        show ?thesis
          using Cons.IH[OF con' al' t(2)] Cons.prems(4) t(1) k Render by simp
      next
        case (Some e)
        have "\<not> alive ?t" using Cons.prems(2) unfolding Render
          by (simp add: render_step_changed_throw[OF Cons.prems(1,2) False Some])
        then show ?thesis using al' by simp
      qed
    qed
  next
    case Unmount
    then have "\<not> alive ?t" using Cons.prems(2) by (simp add: unmount_eq)
    then show ?thesis using al' by simp
  next
    case (CrashEv i e)
    have t: "constructed ?t = constructed s \<and> deps_recreate ?t = Some k"
    proof (cases "i < constructed s")
      case True
      show ?thesis using Cons.prems(3) unfolding CrashEv crash_step_eq[OF Cons.prems(1) True]
        by simp
    next
      case False
      then show ?thesis using CrashEv Cons.prems(3) by simp
    qed
    show ?thesis
      using Cons.IH[OF con' al', of k] t Cons.prems(4) CrashEv by simp
  qed
qed





lemma teardown_step:
  assumes "consistent s"
  shows "filter is_teardown (new_events env a s) @ layout_teardown (step env a s) =
     layout_teardown s @ registered (new_events env a s)"
proof (cases a)
  case (Render c p)
  show ?thesis
  proof (cases "alive s")
    case False
    then show ?thesis using Render by (simp add: new_events_dead)
  next
    case al: True
    show ?thesis
    proof (cases "deps_recreate s = Some (recreate_deps c p)")
      case True
      show ?thesis using al unfolding Render
        by (simp add: new_events_same[OF assms al True] teardown_free registered_append
            registered_free render_step_same[OF assms al True] layout_teardown_def)
    next
      case False
      show ?thesis
      proof (cases "new_Editor env (constructed s) (editor_args_of c p (render_options p))")
        case None
        have l: "layout_teardown (step env (Render c p) s) =
            teardown_events (recreated_layout env p (constructed s))"
          using al by (simp add: render_step_changed_ok[OF assms al False None]
              layout_teardown_def)
        show ?thesis unfolding Render l
          by (simp add: new_events_changed_ok[OF assms al False None] teardown_free
              teardown_kept registered_append registered_free registered_mount_events)
      next
        case (Some e)
        have l: "layout_teardown (step env (Render c p) s) = []"
          using al by (simp add: render_step_changed_throw[OF assms al False Some]
              layout_teardown_def)
        show ?thesis unfolding Render l
          by (simp add: new_events_changed_throw[OF assms al False Some] teardown_free
              teardown_kept registered_append registered_free)
      qed
    qed
  qed
next
  case Unmount
  show ?thesis
  proof (cases "alive s")
    case True
    have l: "layout_teardown (step env Unmount s) = []"
      using True by (simp add: unmount_eq layout_teardown_def)
    show ?thesis unfolding Unmount l
      by (simp add: new_events_unmount[OF True] teardown_kept registered_append
          registered_free split: option.splits)
  next
    case False
    then show ?thesis using Unmount by (simp add: new_events_dead_unmount)
  qed
next
  case (CrashEv i e)
  show ?thesis
  proof (cases "i < constructed s")
    case True
    show ?thesis
    proof (cases "alive s \<and> editor s = Some i \<and> editor_crashingError s i \<noteq> Some e")
      case c: True
      have l: "layout_teardown (step env (CrashEv i e) s) = []"
        unfolding crash_step_eq[OF assms True]
        using c by (simp add: layout_teardown_def)
      have ev: "new_events env (CrashEv i e) s = [Emit i ''crash'', Raise e] @ layout_teardown s"
        unfolding new_events_crash[OF assms True] using c by simp
      show ?thesis unfolding CrashEv l ev
        by (simp add: teardown_kept registered_append registered_free)
    next
      case c: False
      have l: "layout_teardown (step env (CrashEv i e) s) = layout_teardown s"
        unfolding crash_step_eq[OF assms True]
        using c by (auto simp: layout_teardown_def)
      have ev: "new_events env (CrashEv i e) s = [Emit i ''crash'']"
        unfolding new_events_crash[OF assms True] using c by auto
      show ?thesis unfolding CrashEv l ev by simp
    qed
  next
    case False
    then show ?thesis using CrashEv by (simp add: new_events_crash_none)
  qed
qed

lemma teardown_run:
  "filter is_teardown (trace (run env c p acts)) @ layout_teardown (run env c p acts) =
     registered (trace (run env c p acts))"
proof (induction acts rule: rev_induct)
  case Nil
  show ?case
  proof (cases "new_Editor env 0 (editor_args_of c p (render_options p))")
    case None
    show ?thesis
      by (simp add: run_nil_ok[OF None] teardown_free registered_append registered_free
          registered_mount_events layout_teardown_def)
  next
    case (Some e)
    show ?thesis
      by (simp add: run_def mount_throw[OF Some] layout_teardown_def) (simp add: initial_def)
  qed
next
  case (snoc a acts)
  let ?s = "run env c p acts"
  have r: "run env c p (acts @ [a]) = step env a ?s" by (simp add: run_def)
  have con: "consistent ?s" by (rule consistent_run)
  have "filter is_teardown (trace (step env a ?s)) @ layout_teardown (step env a ?s) =
      filter is_teardown (trace ?s)
      @ (filter is_teardown (new_events env a ?s) @ layout_teardown (step env a ?s))"
    by (simp add: step_trace[OF con])
  also have "\<dots> = (filter is_teardown (trace ?s) @ layout_teardown ?s)
      @ registered (new_events env a ?s)"
    by (simp only: teardown_step[OF con] append_assoc)
  also have "\<dots> = registered (trace (step env a ?s))"
    by (simp only: snoc.IH step_trace[OF con] registered_append)
  finally show ?case unfolding r .
qed

subsection \<open>The mount events of a run\<close>




section \<open>The claims\<close>

text \<open>
  C1. In any state of any run where the component is mounted: a render that changes only
  \<open>autoFocus\<close>, \<open>inferDarkMode\<close> and \<open>initialState\<close> constructs and disposes nothing
  and keeps the editor, while the holder takes the new values; a render that changes one of
  \<open>store\<close>, \<open>container\<close>, \<open>shapeUtils\<close>, \<open>bindingUtils\<close>, \<open>tools\<close>, \<open>user\<close>,
  \<open>options\<close>, \<open>licenseKey\<close> disposes the current instance and then calls the
  constructor once. Field by field, the constructor receives the identity values of this
  render and, for \<open>initialState\<close>, \<open>autoFocus\<close> (\<open>true\<close> when undefined),
  \<open>inferDarkMode\<close> and \<open>cameraOptions\<close>, the values of this render, which are the ones
  that the holder contains at that moment.
\<close>

theorem C1_recreation_keyed_by_identity:
  assumes "s = run env c0 p0 acts" and "alive s" and "last_render s = (c, p)"
  shows "filter is_recreation
           (new_events env
              (Render c (p\<lparr>autoFocus := a, inferDarkMode := d, initialState := i\<rparr>)) s) = []
    \<and> editor (step env (Render c (p\<lparr>autoFocus := a, inferDarkMode := d, initialState := i\<rparr>)) s)
        = editor s
    \<and> editorOptionsRef
         (step env (Render c (p\<lparr>autoFocus := a, inferDarkMode := d, initialState := i\<rparr>)) s) =
        \<lparr> opt_autoFocus = (case a of None \<Rightarrow> True | Some b \<Rightarrow> b),
          opt_inferDarkMode = d, opt_initialState = i,
          opt_cameraOptions = cameraOptions p \<rparr>
    \<and> (store p' \<noteq> store p \<or> container c' \<noteq> container c \<or> shapeUtils p' \<noteq> shapeUtils p
        \<or> bindingUtils p' \<noteq> bindingUtils p \<or> tools p' \<noteq> tools p \<or> user p' \<noteq> user p
        \<or> options p' \<noteq> options p \<or> licenseKey p' \<noteq> licenseKey p
        \<longrightarrow> (\<exists>n. editor s = Some n
              \<and> filter is_recreation (new_events env (Render c' p') s) =
                  [Dispose n,
                   NewEditor (Suc n)
                     \<lparr> arg_store = store p', arg_shapeUtils = shapeUtils p',
                       arg_bindingUtils = bindingUtils p', arg_tools = tools p',
                       arg_getContainer = container c', arg_user = user p',
                       arg_initialState = initialState p',
                       arg_autoFocus = (case autoFocus p' of None \<Rightarrow> True | Some b \<Rightarrow> b),
                       arg_inferDarkMode = inferDarkMode p',
                       arg_cameraOptions = cameraOptions p',
                       arg_options = options p', arg_licenseKey = licenseKey p' \<rparr>]
              \<and> editorOptionsRef (step env (Render c' p') s) =
                  \<lparr> opt_autoFocus = (case autoFocus p' of None \<Rightarrow> True | Some b \<Rightarrow> b),
                    opt_inferDarkMode = inferDarkMode p',
                    opt_initialState = initialState p',
                    opt_cameraOptions = cameraOptions p' \<rparr>))"
proof -
  let ?q = "p\<lparr>autoFocus := a, inferDarkMode := d, initialState := i\<rparr>"
  have con: "consistent s" using assms(1) by (simp add: consistent_run)
  have key: "deps_recreate s = Some (recreate_deps c p)"
    and ed: "editor s = Some (constructed s - 1)" and pos: "0 < constructed s"
    using con assms(2,3) by (simp_all add: consistent_def)
  have same: "deps_recreate s = Some (recreate_deps c ?q)"
    using key by (simp add: recreate_deps_def)
  have 1: "filter is_recreation (new_events env (Render c ?q) s) = []"
    by (simp add: recreations_render[OF con assms(2)] same)
  have 2: "editor (step env (Render c ?q) s) = editor s"
    using assms(2) by (simp add: render_step_same[OF con assms(2) same])
  have hq: "editorOptionsRef (step env (Render c ?q) s) = render_options ?q"
    using assms(2) by (simp add: render_step_same[OF con assms(2) same])
  have 3: "editorOptionsRef (step env (Render c ?q) s) =
        \<lparr> opt_autoFocus = (case a of None \<Rightarrow> True | Some b \<Rightarrow> b),
          opt_inferDarkMode = d, opt_initialState = i,
          opt_cameraOptions = cameraOptions p \<rparr>"
    unfolding hq by (simp add: render_options_def)
  have 4: "\<exists>n. editor s = Some n
              \<and> filter is_recreation (new_events env (Render c' p') s) =
                  [Dispose n,
                   NewEditor (Suc n)
                     \<lparr> arg_store = store p', arg_shapeUtils = shapeUtils p',
                       arg_bindingUtils = bindingUtils p', arg_tools = tools p',
                       arg_getContainer = container c', arg_user = user p',
                       arg_initialState = initialState p',
                       arg_autoFocus = (case autoFocus p' of None \<Rightarrow> True | Some b \<Rightarrow> b),
                       arg_inferDarkMode = inferDarkMode p',
                       arg_cameraOptions = cameraOptions p',
                       arg_options = options p', arg_licenseKey = licenseKey p' \<rparr>]
              \<and> editorOptionsRef (step env (Render c' p') s) =
                  \<lparr> opt_autoFocus = (case autoFocus p' of None \<Rightarrow> True | Some b \<Rightarrow> b),
                    opt_inferDarkMode = inferDarkMode p',
                    opt_initialState = initialState p',
                    opt_cameraOptions = cameraOptions p' \<rparr>"
    if "recreate_deps c' p' \<noteq> recreate_deps c p"
  proof -
    have diff: "deps_recreate s \<noteq> Some (recreate_deps c' p')"
      using that key by simp
    have h: "editorOptionsRef (step env (Render c' p') s) = render_options p'"
    proof (cases "new_Editor env (constructed s) (editor_args_of c' p' (render_options p'))")
      case None
      show ?thesis using assms(2)
        by (simp add: render_step_changed_ok[OF con assms(2) diff None])
    next
      case (Some e)
      show ?thesis using assms(2)
        by (simp add: render_step_changed_throw[OF con assms(2) diff Some])
    qed
    have r: "filter is_recreation (new_events env (Render c' p') s) =
        [Dispose (constructed s - 1),
         NewEditor (constructed s) (editor_args_of c' p' (render_options p'))]"
      using diff by (simp add: recreations_render[OF con assms(2)])
    from pos obtain n where n: "constructed s = Suc n"
      by (cases "constructed s") auto
    have e: "editor s = Some n" using ed n by simp
    have r': "filter is_recreation (new_events env (Render c' p') s) =
                  [Dispose n,
                   NewEditor (Suc n)
                     \<lparr> arg_store = store p', arg_shapeUtils = shapeUtils p',
                       arg_bindingUtils = bindingUtils p', arg_tools = tools p',
                       arg_getContainer = container c', arg_user = user p',
                       arg_initialState = initialState p',
                       arg_autoFocus = (case autoFocus p' of None \<Rightarrow> True | Some b \<Rightarrow> b),
                       arg_inferDarkMode = inferDarkMode p',
                       arg_cameraOptions = cameraOptions p',
                       arg_options = options p', arg_licenseKey = licenseKey p' \<rparr>]"
      unfolding r by (simp add: n editor_args_of_def render_options_def)
    have h': "editorOptionsRef (step env (Render c' p') s) =
                  \<lparr> opt_autoFocus = (case autoFocus p' of None \<Rightarrow> True | Some b \<Rightarrow> b),
                    opt_inferDarkMode = inferDarkMode p',
                    opt_initialState = initialState p',
                    opt_cameraOptions = cameraOptions p' \<rparr>"
      unfolding h by (simp add: render_options_def)
    show ?thesis using e r' h' by blast
  qed
  have k: "recreate_deps c' p' \<noteq> recreate_deps c p"
    if "store p' \<noteq> store p \<or> container c' \<noteq> container c \<or> shapeUtils p' \<noteq> shapeUtils p
        \<or> bindingUtils p' \<noteq> bindingUtils p \<or> tools p' \<noteq> tools p \<or> user p' \<noteq> user p
        \<or> options p' \<noteq> options p \<or> licenseKey p' \<noteq> licenseKey p"
    using that by (auto simp: recreate_deps_def)
  show ?thesis using 1 2 3 4 k by blast
qed

text \<open>
  After the mount of the example: a render that changes the three options only, and a
  render that changes the store together with \<open>autoFocus\<close> and \<open>initialState\<close>, whose
  new values the constructor receives.
\<close>

theorem C1_witness:
  "alive (run example_env example_hooks example_props [])
   \<and> filter is_recreation
       (new_events example_env
          (Render example_hooks
             (example_props\<lparr>autoFocus := Some False, inferDarkMode := Some True,
                initialState := Some ''draw''\<rparr>))
          (run example_env example_hooks example_props [])) = []
   \<and> editorOptionsRef
       (step example_env
          (Render example_hooks
             (example_props\<lparr>autoFocus := Some False, inferDarkMode := Some True,
                initialState := Some ''draw''\<rparr>))
          (run example_env example_hooks example_props [])) =
       \<lparr> opt_autoFocus = False, opt_inferDarkMode = Some True,
         opt_initialState = Some ''draw'', opt_cameraOptions = Some 9 \<rparr>
   \<and> filter is_recreation
       (new_events example_env
          (Render example_hooks
             (example_props\<lparr>store := 11, autoFocus := Some False,
                initialState := Some ''draw''\<rparr>))
          (run example_env example_hooks example_props [])) =
       [Dispose 0,
        NewEditor 1
          \<lparr> arg_store = 11, arg_shapeUtils = 3, arg_bindingUtils = 4, arg_tools = 2,
            arg_getContainer = 10, arg_user = 5, arg_initialState = Some ''draw'',
            arg_autoFocus = False, arg_inferDarkMode = None, arg_cameraOptions = Some 9,
            arg_options = None, arg_licenseKey = None \<rparr>]"
proof -
  let ?s = "run example_env example_hooks example_props []"
  let ?q = "example_props\<lparr>store := 11, autoFocus := Some False,
                initialState := Some ''draw''\<rparr>"
  have ed: "editor ?s = Some 0"
    by (simp add: run_def example_mount)
  have st: "store ?q \<noteq> store example_props"
    by (simp add: example_props_def)
  note T = C1_recreation_keyed_by_identity[OF refl example_alive example_last_render,
        where a = "Some False" and d = "Some True" and i = "Some ''draw''"
          and p' = ?q and c' = example_hooks]
  have none: "filter is_recreation
       (new_events example_env
          (Render example_hooks
             (example_props\<lparr>autoFocus := Some False, inferDarkMode := Some True,
                initialState := Some ''draw''\<rparr>)) ?s) = []"
    by (rule T[THEN conjunct1])
  have holder: "editorOptionsRef
       (step example_env
          (Render example_hooks
             (example_props\<lparr>autoFocus := Some False, inferDarkMode := Some True,
                initialState := Some ''draw''\<rparr>)) ?s) =
       \<lparr> opt_autoFocus = False, opt_inferDarkMode = Some True,
         opt_initialState = Some ''draw'', opt_cameraOptions = Some 9 \<rparr>"
    using T[THEN conjunct2, THEN conjunct2, THEN conjunct1]
    by (simp add: example_props_def)
  from T[THEN conjunct2, THEN conjunct2, THEN conjunct2] st
  have "\<exists>n. editor ?s = Some n
      \<and> filter is_recreation (new_events example_env (Render example_hooks ?q) ?s) =
          [Dispose n,
           NewEditor (Suc n)
             \<lparr> arg_store = store ?q, arg_shapeUtils = shapeUtils ?q,
               arg_bindingUtils = bindingUtils ?q, arg_tools = tools ?q,
               arg_getContainer = container example_hooks, arg_user = user ?q,
               arg_initialState = initialState ?q,
               arg_autoFocus = (case autoFocus ?q of None \<Rightarrow> True | Some b \<Rightarrow> b),
               arg_inferDarkMode = inferDarkMode ?q,
               arg_cameraOptions = cameraOptions ?q,
               arg_options = options ?q, arg_licenseKey = licenseKey ?q \<rparr>]"
    by blast
  then have one: "filter is_recreation (new_events example_env (Render example_hooks ?q) ?s) =
       [Dispose 0,
        NewEditor 1
          \<lparr> arg_store = 11, arg_shapeUtils = 3, arg_bindingUtils = 4, arg_tools = 2,
            arg_getContainer = 10, arg_user = 5, arg_initialState = Some ''draw'',
            arg_autoFocus = False, arg_inferDarkMode = None, arg_cameraOptions = Some 9,
            arg_options = None, arg_licenseKey = None \<rparr>]"
    by (simp add: ed) (simp add: example_props_def example_hooks_def)
  show ?thesis
    by (intro conjI example_alive none holder one)
qed

text \<open>
  C2. In a run whose renders change the identity key \<open>N\<close> times and which leaves the
  component mounted, the constructions and disposals of the trace are those of the
  instances \<open>0, ..., N\<close> in turn, each disposed before the next is constructed and the
  last not yet disposed: \<open>N\<close> disposals and \<open>N + 1\<close> constructions. The unmount adds the
  disposal of instance \<open>N\<close>, and then every construction is followed by its one
  disposal.
\<close>

theorem C2_construct_dispose_pairing:
  assumes "s = run env c p acts" and "alive s"
    and "N = identity_changes (recreate_deps c p) acts"
  shows "lifecycle_of (trace s) = generations N
    \<and> length (filter is_disposal (lifecycle_of (trace s))) = N
    \<and> length (filter (\<lambda>x. \<not> is_disposal x) (lifecycle_of (trace s))) = Suc N
    \<and> lifecycle_of (trace (step env Unmount s)) =
        concat (map (\<lambda>i. [Constructs i, Disposes i]) [0..<Suc N])"
proof -
  have al0: "alive (mount env c p)"
    using assms(1,2) alive_run_back[of env "mount env c p" acts] by (simp add: run_def)
  then have ok: "new_Editor env 0 (editor_args_of c p (render_options p)) = None"
    by (cases "new_Editor env 0 (editor_args_of c p (render_options p))")
      (simp_all add: mount_throw)
  note r = run_nil_ok[OF ok]
  have c: "constructed s = Suc N"
    using constructed_changes[OF consistent_mount al0, of "recreate_deps c p" env acts]
      assms r(4,5) by (simp add: run_def)
  have 1: "lifecycle_of (trace s) = generations N"
    using lifecycle_run[of env c p acts] assms(1,2) c by simp
  have con: "consistent s" using assms(1) by (simp add: consistent_run)
  have cl: "cleanup_recreate s = Some N"
    using con assms(2) c by (simp add: consistent_def)
  have 2: "lifecycle_of (trace (step env Unmount s)) = generations N @ [Disposes N]"
    using assms(2) cl 1 by (simp add: unmount_eq lifecycle_of_append lifecycle_free)
  show ?thesis
    using 1 2 generations_counts[of N] by (simp add: generations_def)
qed

text \<open>
  The example with one change of the store.
\<close>

theorem C2_witness:
  "alive (run example_env example_hooks example_props
      [Render example_hooks (example_props\<lparr>store := 11\<rparr>)])
   \<and> identity_changes (recreate_deps example_hooks example_props)
        [Render example_hooks (example_props\<lparr>store := 11\<rparr>)] = 1
   \<and> lifecycle_of (trace (run example_env example_hooks example_props
        [Render example_hooks (example_props\<lparr>store := 11\<rparr>)])) =
       [Constructs 0, Disposes 0, Constructs 1]"
proof -
  have ok: "new_Editor example_env 0
      (editor_args_of example_hooks example_props (render_options example_props)) = None"
    by (simp add: example_env_def)
  note r = run_nil_ok[OF ok]
  let ?q = "example_props\<lparr>store := 11\<rparr>"
  let ?start = "run example_env example_hooks example_props []"
  have diff: "deps_recreate ?start \<noteq> Some (recreate_deps example_hooks ?q)"
    by (simp add: r recreate_deps_def) (simp add: example_props_def)
  have ok1: "new_Editor example_env (constructed ?start)
      (editor_args_of example_hooks ?q (render_options ?q)) = None"
    by (simp add: example_env_def)
  have s: "run example_env example_hooks example_props [Render example_hooks ?q] =
      step example_env (Render example_hooks ?q) ?start"
    by (simp only: run_def foldl.simps)
  have al: "alive (run example_env example_hooks example_props [Render example_hooks ?q])"
    unfolding s using r(1)
    by (simp add: render_step_changed_ok[OF consistent_run r(1) diff ok1])
  have n: "identity_changes (recreate_deps example_hooks example_props)
        [Render example_hooks ?q] = 1"
    by (simp add: recreate_deps_def example_props_def)
  show ?thesis
    using C2_construct_dispose_pairing[OF refl al n[symmetric]] al n
    by (simp add: generations_def)
qed

text \<open>
  C3. The gate, by the status of the store: \<open>error(err)\<close> throws exactly \<open>err\<close>;
  \<open>loading\<close> renders the \<open>LoadingScreen\<close> of the components when there is one and nothing
  otherwise, and never the ready-store component, so no engine is made; each of
  \<open>not-synced\<close>, \<open>synced-local\<close> and \<open>synced-remote\<close> renders the ready-store component
  with the underlying store and the same user.
\<close>

theorem C3_store_status_gate:
  "TldrawEditorWithLoadingStore c (p\<lparr>store := StatusError err\<rparr>) = Inl err
   \<and> TldrawEditorWithLoadingStore c (p\<lparr>store := StatusLoading\<rparr>) =
       Inr (case LoadingScreen c of Some l \<Rightarrow> GLoadingScreen l | None \<Rightarrow> GNull)
   \<and> (\<forall>q. TldrawEditorWithLoadingStore c (p\<lparr>store := StatusLoading\<rparr>) \<noteq> Inr (GReadyStore q))
   \<and> TldrawEditorWithLoadingStore c (p\<lparr>store := StatusNotSynced st\<rparr>) =
       Inr (GReadyStore (with_store p st))
   \<and> TldrawEditorWithLoadingStore c (p\<lparr>store := StatusSyncedLocal st\<rparr>) =
       Inr (GReadyStore (with_store p st))
   \<and> TldrawEditorWithLoadingStore c (p\<lparr>store := StatusSyncedRemote st\<rparr>) =
       Inr (GReadyStore (with_store p st))
   \<and> store (with_store p st) = st \<and> user (with_store p st) = user p"
  by (simp add: TldrawEditorWithLoadingStore_def with_store_def split: option.splits)



text \<open>
  C5. In any state of any run: a crash value that is not \<open>null\<close> is not \<open>null\<close> after any
  step; and when the current instance of a mounted component has crashed, then after
  any further renders with the same identity key and any further crash notifications
  the component is mounted with the same instance, its crash value is an error \<open>e\<close>, the
  tree rendered is the \<open>Crash\<close> element, which throws \<open>e\<close>, and a further render with
  that key, whatever its other props, raises \<open>e\<close> to the boundary and otherwise only
  calls the camera update.
\<close>

theorem C5_crash_latch:
  assumes "s = run env c0 p0 acts"
    and "s' = foldl (\<lambda>s a. step env a s) s later"
  shows "(editor_crashingError s i \<noteq> None \<longrightarrow> editor_crashingError (step env a s) i \<noteq> None)
    \<and> (alive s \<and> editor s = Some j \<and> editor_crashingError s j \<noteq> None
         \<and> deps_recreate s = Some k \<and> (\<forall>a\<in>set later. keeps_identity k a)
       \<longrightarrow> alive s' \<and> editor s' = Some j
           \<and> (\<exists>e. editor_crashingError s' j = Some e \<and> crashingError s' = Some e
                 \<and> render_tree s' = RCrash e \<and> Crash e = Inl e
                 \<and> (recreate_deps c p = k \<longrightarrow>
                      new_events env (Render c p) s' = [Raise e] @ stale_camera s' p)))"
proof -
  have con: "consistent s" using assms(1) by (simp add: consistent_run)
  have 1: "editor_crashingError (step env a s) i \<noteq> None" if "editor_crashingError s i \<noteq> None"
    using crash_monotone[OF con that] .
  have 2: "alive s' \<and> editor s' = Some j
           \<and> (\<exists>e. editor_crashingError s' j = Some e \<and> crashingError s' = Some e
                 \<and> render_tree s' = RCrash e \<and> Crash e = Inl e
                 \<and> (recreate_deps c p = k \<longrightarrow>
                      new_events env (Render c p) s' = [Raise e] @ stale_camera s' p))"
    if h: "alive s" "editor s = Some j" "editor_crashingError s j \<noteq> None"
      "deps_recreate s = Some k" "\<forall>a\<in>set later. keeps_identity k a"
  proof -
    have r: "alive s'" "editor s' = Some j" "editor_crashingError s' j \<noteq> None"
      using crashed_run[OF con h, of env] assms(2) by simp_all
    then obtain e where e: "editor_crashingError s' j = Some e" by auto
    have con': "consistent s'"
      unfolding assms(2) using con
      by (induction later arbitrary: s) (simp_all add: consistent_step)
    have key': "deps_recreate s' = Some k"
      unfolding assms(2) using con h
    proof (induction later arbitrary: s)
      case Nil
      then show ?case by simp
    next
      case (Cons a later)
      have "consistent (step env a s)" using Cons.prems(1) by (rule consistent_step)
      moreover have "alive (step env a s) \<and> editor (step env a s) = Some j
          \<and> deps_recreate (step env a s) = Some k"
        using crashed_step[OF Cons.prems(1-5)] Cons.prems(6) by simp
      moreover have "editor_crashingError (step env a s) j \<noteq> None"
        using crash_monotone[OF Cons.prems(1,4)] .
      moreover have "\<forall>a\<in>set later. keeps_identity k a" using Cons.prems(6) by simp
      ultimately show ?case using Cons.IH[of "step env a s"] by simp
    qed
    have ev: "new_events env (Render c p) s' = [Raise e] @ stale_camera s' p"
      if "recreate_deps c p = k"
      using new_events_same[OF con' r(1), of c p env] key' that r(2) e
      by (simp add: crash_events_def crashingError_def)
    show ?thesis
      using r e ev
      by (simp add: render_tree_crashed[OF r(2) e] crashingError_def Crash_def)
  qed
  show ?thesis using 1 2 by blast
qed

text \<open>
  The example crashes, renders with another \<open>autoFocus\<close>, and is notified again; the
  crash value of the first instance also outlives its replacement.
\<close>

theorem C5_witness:
  "alive (run example_env example_hooks example_props [CrashEv 0 (JsError 3)])
   \<and> editor (run example_env example_hooks example_props [CrashEv 0 (JsError 3)]) = Some 0
   \<and> (\<exists>e. render_tree (run example_env example_hooks example_props
        [CrashEv 0 (JsError 3), Render example_hooks (example_props\<lparr>autoFocus := Some False\<rparr>),
         CrashEv 0 (JsError 3)]) = RCrash e)
   \<and> editor_crashingError
        (run example_env example_hooks example_props [CrashEv 0 (JsError 3)]) 0 \<noteq> None
   \<and> editor_crashingError
        (step example_env (Render example_hooks (example_props\<lparr>store := 11\<rparr>))
           (run example_env example_hooks example_props [CrashEv 0 (JsError 3)])) 0 \<noteq> None"
proof -
  have ok: "new_Editor example_env 0
      (editor_args_of example_hooks example_props (render_options example_props)) = None"
    by (simp add: example_env_def)
  note r = run_nil_ok[OF ok]
  let ?start = "run example_env example_hooks example_props []"
  let ?s = "run example_env example_hooks example_props [CrashEv 0 (JsError 3)]"
  let ?k = "recreate_deps example_hooks example_props"
  let ?later = "[Render example_hooks (example_props\<lparr>autoFocus := Some False\<rparr>),
         CrashEv 0 (JsError 3)]"
  have s: "?s = step example_env (CrashEv 0 (JsError 3)) ?start"
    by (simp only: run_def foldl.simps)
  have lt: "0 < constructed ?start" by (simp add: r)
  have st: "alive ?s" "editor ?s = Some 0" "editor_crashingError ?s 0 = Some (JsError 3)"
    "deps_recreate ?s = Some ?k"
    unfolding s crash_step_eq[OF consistent_run lt] by (simp_all add: r)
  have keep: "\<forall>a\<in>set ?later. keeps_identity ?k a"
    by (simp add: recreate_deps_def)
  have fold: "foldl (\<lambda>s a. step example_env a s) ?s ?later =
      run example_env example_hooks example_props (CrashEv 0 (JsError 3) # ?later)"
    by (simp only: run_def foldl.simps)
  show ?thesis
    using C5_crash_latch[OF refl fold[symmetric], where j = 0 and k = ?k and i = 0
        and a = "Render example_hooks (example_props\<lparr>store := 11\<rparr>)"] st keep
    by (simp only: option.distinct not_False_eq_True simp_thms) blast
qed

text \<open>
  C6, as stated, fails: in the example the store's hook registers its teardown \<open>70\<close>
  before the caller's \<open>onMount\<close> registers \<open>71\<close>, and at the unmount they are invoked in
  this same order, not in the reverse one.
\<close>

theorem C6_counterexample:
  "registered (trace (run example_env example_hooks example_props [Unmount])) =
     [TeardownStore 0 70, TeardownCallback 0 71]
   \<and> filter is_teardown (trace (run example_env example_hooks example_props [Unmount])) =
     [TeardownStore 0 70, TeardownCallback 0 71]
   \<and> filter is_teardown (trace (run example_env example_hooks example_props [Unmount])) \<noteq>
     rev (registered (trace (run example_env example_hooks example_props [Unmount])))"
proof -
  have ok: "new_Editor example_env 0
      (editor_args_of example_hooks example_props (render_options example_props)) = None"
    by (simp add: example_env_def)
  note r = run_nil_ok[OF ok]
  have s: "run example_env example_hooks example_props [Unmount] =
      step example_env Unmount (run example_env example_hooks example_props [])"
    by (simp only: run_def foldl.simps)
  have l: "layout_teardown (run example_env example_hooks example_props []) =
      [TeardownStore 0 70, TeardownCallback 0 71]"
    by (simp add: r layout_teardown_def recreated_layout_def teardown_events_def)
      (simp add: example_env_def example_props_def)
  have t: "trace (run example_env example_hooks example_props [Unmount]) =
      trace (run example_env example_hooks example_props [])
      @ [Dispose 0, TeardownStore 0 70, TeardownCallback 0 71]"
    unfolding s using r(1) by (simp add: unmount_eq r(8) l)
  have reg: "registered (trace (run example_env example_hooks example_props [])) =
      [TeardownStore 0 70, TeardownCallback 0 71]"
    by (simp add: r registered_append registered_free registered_mount_events
        recreated_layout_def teardown_events_def)
      (simp add: example_env_def example_props_def)
  have td: "filter is_teardown (trace (run example_env example_hooks example_props [])) = []"
    by (simp add: r teardown_free)
  show ?thesis
    by (simp add: t registered_append reg td)
qed

text \<open>
  C6, amended. The teardown closures returned by the store's mount hook and by the
  caller's \<open>onMount\<close> are kept by the cleanup of the effect. In any state of any run,
  the teardown calls made so far, followed by those that the \<open>Layout\<close> in the tree still
  owes, are the registered closures, each once, in the order of registration: for one
  instance the store's teardown, then the caller's. Once the component is unmounted
  nothing is owed. The unmount and the render that replaces the instance invoke what is
  owed; a render with the same identity key invokes nothing.
\<close>

theorem C6_teardown_order:
  assumes "s = run env c p acts"
  shows "filter is_teardown (trace s) @ layout_teardown s = registered (trace s)
    \<and> (\<not> alive s \<longrightarrow> filter is_teardown (trace s) = registered (trace s))
    \<and> registered [OnEditorMount st i (Some x), OnMount i (Some y)] =
        [TeardownStore i x, TeardownCallback i y]
    \<and> (alive s \<longrightarrow> filter is_teardown (new_events env Unmount s) = layout_teardown s)
    \<and> (alive s \<and> deps_recreate s \<noteq> Some (recreate_deps c' p')
         \<longrightarrow> filter is_teardown (new_events env (Render c' p') s) = layout_teardown s)
    \<and> (alive s \<and> deps_recreate s = Some (recreate_deps c' p')
         \<longrightarrow> filter is_teardown (new_events env (Render c' p') s) = [])"
proof -
  have con: "consistent s" using assms by (simp add: consistent_run)
  have 1: "filter is_teardown (trace s) @ layout_teardown s = registered (trace s)"
    unfolding assms by (rule teardown_run)
  have 2: "filter is_teardown (trace s) = registered (trace s)" if "\<not> alive s"
  proof -
    have "layout s = None" using con that by (simp add: consistent_def)
    then show ?thesis using 1 by (simp add: layout_teardown_def)
  qed
  have 3: "filter is_teardown (new_events env Unmount s) = layout_teardown s" if "alive s"
    by (simp add: new_events_unmount[OF that] teardown_kept split: option.splits)
  have 4: "filter is_teardown (new_events env (Render c' p') s) = layout_teardown s"
    if al: "alive s" and d: "deps_recreate s \<noteq> Some (recreate_deps c' p')"
  proof (cases "new_Editor env (constructed s) (editor_args_of c' p' (render_options p'))")
    case None
    show ?thesis
      by (simp add: new_events_changed_ok[OF con al d None] teardown_free teardown_kept)
  next
    case (Some e)
    show ?thesis
      by (simp add: new_events_changed_throw[OF con al d Some] teardown_free teardown_kept)
  qed
  have 5: "filter is_teardown (new_events env (Render c' p') s) = []"
    if al: "alive s" and d: "deps_recreate s = Some (recreate_deps c' p')"
    by (simp add: new_events_same[OF con al d] teardown_free)
  show ?thesis using 1 2 3 4 5 by simp
qed

text \<open>
  The example: unmounted; and, from its mount, the unmount, a render that replaces the
  instance, and a render that keeps it.
\<close>

theorem C6_witness:
  "\<not> alive (run example_env example_hooks example_props [Unmount])
   \<and> filter is_teardown (trace (run example_env example_hooks example_props [Unmount])) =
       registered (trace (run example_env example_hooks example_props [Unmount]))
   \<and> alive (run example_env example_hooks example_props [])
   \<and> filter is_teardown
        (new_events example_env Unmount (run example_env example_hooks example_props [])) =
       [TeardownStore 0 70, TeardownCallback 0 71]
   \<and> filter is_teardown
        (new_events example_env (Render example_hooks (example_props\<lparr>store := 11\<rparr>))
           (run example_env example_hooks example_props [])) =
       [TeardownStore 0 70, TeardownCallback 0 71]
   \<and> filter is_teardown
        (new_events example_env (Render example_hooks (example_props\<lparr>autoFocus := Some False\<rparr>))
           (run example_env example_hooks example_props [])) = []"
proof -
  have ok: "new_Editor example_env 0
      (editor_args_of example_hooks example_props (render_options example_props)) = None"
    by (simp add: example_env_def)
  note r = run_nil_ok[OF ok]
  have s: "run example_env example_hooks example_props [Unmount] =
      step example_env Unmount (run example_env example_hooks example_props [])"
    by (simp only: run_def foldl.simps)
  have dead: "\<not> alive (run example_env example_hooks example_props [Unmount])"
    unfolding s using r(1) by (simp add: unmount_eq)
  let ?s = "run example_env example_hooks example_props []"
  have l: "layout_teardown ?s = [TeardownStore 0 70, TeardownCallback 0 71]"
    by (simp add: r layout_teardown_def recreated_layout_def teardown_events_def)
      (simp add: example_env_def example_props_def)
  have diff: "deps_recreate ?s \<noteq>
      Some (recreate_deps example_hooks (example_props\<lparr>store := 11\<rparr>))"
    by (simp add: r recreate_deps_def) (simp add: example_props_def)
  have key: "deps_recreate ?s =
      Some (recreate_deps example_hooks (example_props\<lparr>autoFocus := Some False\<rparr>))"
    by (simp add: r recreate_deps_def)
  show ?thesis
    using C6_teardown_order[OF refl, of example_env example_hooks example_props "[Unmount]"]
      C6_teardown_order[OF refl, of example_env example_hooks example_props "[]" _ _ _ _
        example_hooks "example_props\<lparr>store := 11\<rparr>"]
      C6_teardown_order[OF refl, of example_env example_hooks example_props "[]" _ _ _ _
        example_hooks "example_props\<lparr>autoFocus := Some False\<rparr>"]
      dead r(1) l diff key
    by simp
qed

text \<open>
  C7, as stated, fails: the example is mounted with camera options and a live instance;
  the render that changes \<open>cameraOptions\<close> to \<open>undefined\<close> calls nothing at all, so the
  new value is not applied through \<open>setCameraOptions\<close>.
\<close>

theorem C7_counterexample:
  "editor (run example_env example_hooks example_props []) = Some 0
   \<and> alive (run example_env example_hooks example_props [])
   \<and> cameraOptions example_props = Some 9
   \<and> cameraOptions (example_props\<lparr>cameraOptions := None\<rparr>) = None
   \<and> new_events example_env
        (Render example_hooks (example_props\<lparr>cameraOptions := None\<rparr>))
        (run example_env example_hooks example_props []) = []"
proof -
  have ok: "new_Editor example_env 0
      (editor_args_of example_hooks example_props (render_options example_props)) = None"
    by (simp add: example_env_def)
  note r = run_nil_ok[OF ok]
  have key: "deps_recreate (run example_env example_hooks example_props []) =
      Some (recreate_deps example_hooks (example_props\<lparr>cameraOptions := None\<rparr>))"
    by (simp add: r recreate_deps_def)
  show ?thesis
    by (simp add: new_events_same[OF consistent_run r(1) key] r crash_events_def
        crashingError_def stale_camera_def camera_events_def)
      (simp add: example_props_def)
qed

text \<open>
  C7, amended. In any state of any run where the component is mounted, a render that
  changes only \<open>cameraOptions\<close> constructs and disposes nothing and keeps the editor.
  When the new value is defined it is applied by exactly one call of \<open>setCameraOptions\<close>
  on the current instance; when it is \<open>undefined\<close>, the guard \<open>editor && cameraOptions\<close>
  of line 414 makes no call. (The only other event is the re-raise of the crash error
  when the instance has crashed.)
\<close>

theorem C7_camera_options_live:
  assumes "s = run env c0 p0 acts" and "alive s" and "last_render s = (c, p)"
    and "co \<noteq> cameraOptions p"
  shows "\<exists>n. editor s = Some n
    \<and> new_events env (Render c (p\<lparr>cameraOptions := co\<rparr>)) s =
        crash_events s @ (case co of None \<Rightarrow> [] | Some cam \<Rightarrow> [SetCameraOptions n cam])
    \<and> filter is_recreation (new_events env (Render c (p\<lparr>cameraOptions := co\<rparr>)) s) = []
    \<and> editor (step env (Render c (p\<lparr>cameraOptions := co\<rparr>)) s) = Some n"
proof -
  let ?q = "p\<lparr>cameraOptions := co\<rparr>"
  have con: "consistent s" using assms(1) by (simp add: consistent_run)
  define n where "n = constructed s - 1"
  have key: "deps_recreate s = Some (recreate_deps c p)"
    and ed: "editor s = Some n"
    using con assms(2,3) by (simp_all add: consistent_def n_def)
  have same: "deps_recreate s = Some (recreate_deps c ?q)"
    using key by (simp add: recreate_deps_def)
  have ev: "new_events env (Render c ?q) s =
      crash_events s @ (case co of None \<Rightarrow> [] | Some cam \<Rightarrow> [SetCameraOptions n cam])"
    using assms(3,4)
    by (simp add: new_events_same[OF con assms(2) same] stale_camera_def camera_events_def
        n_def split: option.splits)
  have "filter is_recreation (new_events env (Render c ?q) s) = []"
    by (simp add: recreations_render[OF con assms(2)] same)
  moreover have "editor (step env (Render c ?q) s) = editor s"
    using assms(2) by (simp add: render_step_same[OF con assms(2) same])
  ultimately show ?thesis using ed ev by simp
qed

text \<open>
  A change of the camera options of the example to another defined value.
\<close>

theorem C7_witness:
  "alive (run example_env example_hooks example_props [])
   \<and> Some 12 \<noteq> cameraOptions example_props
   \<and> new_events example_env (Render example_hooks (example_props\<lparr>cameraOptions := Some 12\<rparr>))
        (run example_env example_hooks example_props []) = [SetCameraOptions 0 12]"
proof -
  have ok: "new_Editor example_env 0
      (editor_args_of example_hooks example_props (render_options example_props)) = None"
    by (simp add: example_env_def)
  note r = run_nil_ok[OF ok]
  have ne: "Some 12 \<noteq> cameraOptions example_props" by (simp add: example_props_def)
  show ?thesis
    using C7_camera_options_live[OF refl r(1) r(2) ne] r(1) ne
    by (simp add: r crash_events_def crashingError_def)
qed

text \<open>
  C8. When the constructor throws in the render of a mounted component whose identity
  key changed: the previous instance has been disposed before the constructor was
  called, the error is raised to the boundary, the component is unmounted with no
  \<open>Layout\<close> left, the editor state still holds the previous instance, no instance has
  been added, and \<open>setEditor\<close> is not called with the new instance, then or at any later
  time. When the first construction throws, the constructor call and the error are all
  that happens: no editor is exposed and the component is unmounted.
\<close>

theorem C8_construction_failure:
  assumes "s = run env c0 p0 acts" and "alive s"
    and "deps_recreate s \<noteq> Some (recreate_deps c p)"
    and "new_Editor env (constructed s) (editor_args_of c p (render_options p)) = Some e"
    and "s' = foldl (\<lambda>s a. step env a s) (step env (Render c p) s) later"
  shows "\<exists>n. editor s = Some n \<and> constructed s = Suc n
    \<and> new_events env (Render c p) s =
        crash_events s
        @ [Dispose n, NewEditor (Suc n) (editor_args_of c p (render_options p)), Raise e]
        @ layout_teardown s
    \<and> \<not> alive s' \<and> layout s' = None \<and> editor s' = Some n \<and> constructed s' = Suc n
    \<and> SetEditor (Suc n) \<notin> set (trace s')
    \<and> (new_Editor env1 0 (editor_args_of c1 p1 (render_options p1)) = Some e1
         \<longrightarrow> trace (mount env1 c1 p1) =
               [NewEditor 0 (editor_args_of c1 p1 (render_options p1)), Raise e1]
             \<and> editor (mount env1 c1 p1) = None \<and> \<not> alive (mount env1 c1 p1))"
proof -
  have first: "trace (mount env1 c1 p1) =
               [NewEditor 0 (editor_args_of c1 p1 (render_options p1)), Raise e1]
             \<and> editor (mount env1 c1 p1) = None \<and> \<not> alive (mount env1 c1 p1)"
    if "new_Editor env1 0 (editor_args_of c1 p1 (render_options p1)) = Some e1"
    by (simp add: mount_throw[OF that]) (simp add: initial_def)
  have con: "consistent s" using assms(1) by (simp add: consistent_run)
  have ed: "editor s = Some (constructed s - 1)" and pos: "0 < constructed s"
    using con assms(2) by (simp_all add: consistent_def)
  let ?t = "step env (Render c p) s"
  note T = render_step_changed_throw[OF con assms(2,3,4)]
  have ev: "new_events env (Render c p) s =
        crash_events s
        @ [Dispose (constructed s - 1),
           NewEditor (constructed s) (editor_args_of c p (render_options p)), Raise e]
        @ layout_teardown s"
    by (rule new_events_changed_throw[OF con assms(2,3,4)])
  have old: "SetEditor (constructed s) \<notin> set (trace s)"
    using SetEditor_bound[of "constructed s" env c0 p0 acts] assms(1) by auto
  have t: "\<not> alive ?t" "layout ?t = None" "editor ?t = editor s"
    "constructed ?t = constructed s"
    using assms(2) by (simp_all add: T)
  have nt: "SetEditor (constructed s) \<notin> set (trace ?t)"
    unfolding step_trace[OF con] ev using old by (simp add: SetEditor_notin)
  from dead_run[OF t(1), of env later "constructed s"] t nt ed pos assms(5)
  have "\<not> alive s' \<and> layout s' = None \<and> editor s' = Some (constructed s - 1)
      \<and> constructed s' = constructed s \<and> SetEditor (constructed s) \<notin> set (trace s')"
    by simp
  then show ?thesis using ed pos ev first
    by (intro exI[of _ "constructed s - 1"]) simp
qed

text \<open>
  In the failing environment, the second construction of the example; and a first
  construction that throws.
\<close>

theorem C8_witness:
  "alive (run failing_env example_hooks example_props [])
   \<and> new_events failing_env (Render example_hooks (example_props\<lparr>store := 11\<rparr>))
        (run failing_env example_hooks example_props []) =
       [Dispose 0,
        NewEditor 1 (editor_args_of example_hooks (example_props\<lparr>store := 11\<rparr>)
          (render_options (example_props\<lparr>store := 11\<rparr>))),
        Raise (JsError 8), TeardownStore 0 70, TeardownCallback 0 71]
   \<and> SetEditor 1 \<notin> set (trace (run failing_env example_hooks example_props
        [Render example_hooks (example_props\<lparr>store := 11\<rparr>),
         Render example_hooks (example_props\<lparr>store := 11\<rparr>)]))
   \<and> trace (mount (failing_env\<lparr>new_Editor := (\<lambda>k a. Some (JsError 8))\<rparr>)
        example_hooks example_props) =
       [NewEditor 0 (editor_args_of example_hooks example_props (render_options example_props)),
        Raise (JsError 8)]"
proof -
  have ok: "new_Editor failing_env 0
      (editor_args_of example_hooks example_props (render_options example_props)) = None"
    by (simp add: failing_env_def)
  note r = run_nil_ok[OF ok]
  let ?s = "run failing_env example_hooks example_props []"
  let ?q = "example_props\<lparr>store := 11\<rparr>"
  have diff: "deps_recreate ?s \<noteq> Some (recreate_deps example_hooks ?q)"
    by (simp add: r recreate_deps_def) (simp add: example_props_def)
  have thr: "new_Editor failing_env (constructed ?s)
      (editor_args_of example_hooks ?q (render_options ?q)) = Some (JsError 8)"
    by (simp add: r) (simp add: failing_env_def)
  have run2: "run failing_env example_hooks example_props [Render example_hooks ?q, Render example_hooks ?q]
      = foldl (\<lambda>s a. step failing_env a s) (step failing_env (Render example_hooks ?q) ?s)
          [Render example_hooks ?q]"
    by (simp add: run_def)
  have thr0: "new_Editor (failing_env\<lparr>new_Editor := (\<lambda>k a. Some (JsError 8))\<rparr>) 0
      (editor_args_of example_hooks example_props (render_options example_props)) =
      Some (JsError 8)"
    by simp
  show ?thesis
    using C8_construction_failure[OF refl r(1) diff thr refl,
        where later = "[Render example_hooks ?q]"
          and ?env1.0 = "failing_env\<lparr>new_Editor := (\<lambda>k a. Some (JsError 8))\<rparr>"
          and ?c1.0 = example_hooks and ?p1.0 = example_props and ?e1.0 = "JsError 8"]
      r(1) thr0
    by (simp add: r run2 crash_events_def crashingError_def layout_teardown_def
        teardown_events_def recreated_layout_def)
      (simp add: example_props_def failing_env_def)
qed

text \<open>
  C9, as stated, fails: the gate is mounted while the store is loading and the user
  prefers the light scheme; the preference becomes dark; the next render is the first
  with a ready store. The effect does not run at that render, and the classes of the
  container are still those of the light theme.
\<close>

theorem C9_counterexample:
  "TldrawEditorWithLoadingStore example_hooks (gate_props StatusLoading) = Inr GNull
   \<and> is_ready (store (gate_props (StatusSyncedLocal 1)))
   \<and> colorScheme
        (gate_run (gate_initial (\<lambda>u. ''light''))
           [GateRender example_hooks (gate_props StatusLoading),
            SetColorScheme 5 ''dark'',
            GateRender example_hooks (gate_props (StatusSyncedLocal 1))])
        (user (gate_props (StatusSyncedLocal 1))) = ''dark''
   \<and> classList
        (gate_run (gate_initial (\<lambda>u. ''light''))
           [GateRender example_hooks (gate_props StatusLoading),
            SetColorScheme 5 ''dark'',
            GateRender example_hooks (gate_props (StatusSyncedLocal 1))])
        (container example_hooks) = [''tl-container'', ''tl-theme__light'']"
  by (simp add: gate_run_def gate_props_def with_store_def example_props_def
      example_hooks_def gate_initial_def TldrawEditorWithLoadingStore_def theme_effect_def
      is_ready_def)

text \<open>
  C9, amended. The effect runs at the first commit of the gate, whether the store is
  loading or ready, and again at a commit where the container or the user is another
  object; it reads the colour scheme of the user once and, when that is \<open>dark\<close>, removes
  \<open>tl-theme__light\<close> from the container and adds \<open>tl-theme__dark\<close>, and otherwise leaves
  the classes as they are. A render with the same container and user, a render that
  throws the store's error, and a change of the preferences leave the classes
  unchanged.
\<close>

theorem C9_theme_effect:
  "(TldrawEditorWithLoadingStore c p = Inr out \<and> deps_theme g \<noteq> Some (container c, user p)
      \<longrightarrow> classList (gate_step (GateRender c p) g) =
            (classList g)(container c :=
               (if colorScheme g (user p) = ''dark''
                then classList_add ''tl-theme__dark''
                       (classList_remove ''tl-theme__light'' (classList g (container c)))
                else classList g (container c)))
          \<and> deps_theme (gate_step (GateRender c p) g) = Some (container c, user p))
   \<and> (deps_theme g = Some (container c, user p)
      \<longrightarrow> classList (gate_step (GateRender c p) g) = classList g)
   \<and> (TldrawEditorWithLoadingStore c p = Inl err
      \<longrightarrow> classList (gate_step (GateRender c p) g) = classList g)
   \<and> classList (gate_step (SetColorScheme u v) g) = classList g
   \<and> deps_theme (gate_step (SetColorScheme u v) g) = deps_theme g
   \<and> deps_theme (gate_initial prefs) = None"
  by (auto simp: theme_effect_def gate_initial_def split: sum.splits)

text \<open>
  The gate mounted with a loading store and a user who prefers the dark scheme; a
  second render with the same container and user; a render with a store in error.
\<close>

theorem C9_witness:
  "TldrawEditorWithLoadingStore example_hooks (gate_props StatusLoading) = Inr GNull
   \<and> deps_theme (gate_initial (\<lambda>u. ''dark'')) \<noteq>
       Some (container example_hooks, user (gate_props StatusLoading))
   \<and> classList
        (gate_step (GateRender example_hooks (gate_props StatusLoading))
           (gate_initial (\<lambda>u. ''dark'')))
        (container example_hooks) = [''tl-container'', ''tl-theme__dark'']
   \<and> deps_theme
        (gate_step (GateRender example_hooks (gate_props StatusLoading))
           (gate_initial (\<lambda>u. ''light''))) =
       Some (container example_hooks, user (gate_props (StatusSyncedLocal 1)))
   \<and> classList
        (gate_step (GateRender example_hooks (gate_props (StatusSyncedLocal 1)))
           (gate_step (GateRender example_hooks (gate_props StatusLoading))
              (gate_initial (\<lambda>u. ''light'')))) =
       classList
         (gate_step (GateRender example_hooks (gate_props StatusLoading))
            (gate_initial (\<lambda>u. ''light'')))
   \<and> TldrawEditorWithLoadingStore example_hooks (gate_props (StatusError (JsError 1))) =
       Inl (JsError 1)
   \<and> classList
        (gate_step (GateRender example_hooks (gate_props (StatusError (JsError 1))))
           (gate_initial (\<lambda>u. ''dark''))) =
       classList (gate_initial (\<lambda>u. ''dark''))"
proof -
  have a: "TldrawEditorWithLoadingStore example_hooks (gate_props StatusLoading) = Inr GNull"
    by (simp add: TldrawEditorWithLoadingStore_def gate_props_def with_store_def
        example_hooks_def)
  have b: "deps_theme (gate_initial (\<lambda>u. ''dark'')) \<noteq>
       Some (container example_hooks, user (gate_props StatusLoading))"
    by (simp add: gate_initial_def)
  have c: "classList_add ''tl-theme__dark''
      (classList_remove ''tl-theme__light'' [''tl-container'', ''tl-theme__light'']) =
      [''tl-container'', ''tl-theme__dark'']"
    by (simp add: classList_add_def classList_remove_def)
  from C9_theme_effect[of example_hooks "gate_props StatusLoading" GNull
      "gate_initial (\<lambda>u. ''dark'')"] a b
  have "classList
        (gate_step (GateRender example_hooks (gate_props StatusLoading))
           (gate_initial (\<lambda>u. ''dark''))) =
      (classList (gate_initial (\<lambda>u. ''dark'')))(container example_hooks :=
         classList_add ''tl-theme__dark''
           (classList_remove ''tl-theme__light''
              (classList (gate_initial (\<lambda>u. ''dark'')) (container example_hooks))))"
    by (simp add: gate_initial_def)
  then have first: "classList
        (gate_step (GateRender example_hooks (gate_props StatusLoading))
           (gate_initial (\<lambda>u. ''dark'')))
        (container example_hooks) = [''tl-container'', ''tl-theme__dark'']"
    using c by (simp add: gate_initial_def)
  let ?g = "gate_step (GateRender example_hooks (gate_props StatusLoading))
           (gate_initial (\<lambda>u. ''light''))"
  have b': "deps_theme (gate_initial (\<lambda>u. ''light'')) \<noteq>
       Some (container example_hooks, user (gate_props StatusLoading))"
    by (simp add: gate_initial_def)
  have u: "user (gate_props (StatusSyncedLocal 1)) = user (gate_props StatusLoading)"
    by (simp add: gate_props_def with_store_def)
  from C9_theme_effect[of example_hooks "gate_props StatusLoading" GNull
      "gate_initial (\<lambda>u. ''light'')"] a b'
  have d: "deps_theme ?g =
       Some (container example_hooks, user (gate_props (StatusSyncedLocal 1)))"
    by (simp only: u) blast
  from C9_theme_effect[of example_hooks "gate_props (StatusSyncedLocal 1)" _ ?g] d
  have second: "classList
        (gate_step (GateRender example_hooks (gate_props (StatusSyncedLocal 1))) ?g) =
       classList ?g"
    by blast
  have e: "TldrawEditorWithLoadingStore example_hooks (gate_props (StatusError (JsError 1))) =
       Inl (JsError 1)"
    by (simp add: TldrawEditorWithLoadingStore_def gate_props_def with_store_def)
  from C9_theme_effect[of example_hooks "gate_props (StatusError (JsError 1))" _
      "gate_initial (\<lambda>u. ''dark'')" "JsError 1"] e
  have third: "classList
        (gate_step (GateRender example_hooks (gate_props (StatusError (JsError 1))))
           (gate_initial (\<lambda>u. ''dark''))) =
       classList (gate_initial (\<lambda>u. ''dark''))"
    by blast
  show ?thesis using a b first d second e third by blast
qed

text \<open>
  C10. When the \<open>autoFocus\<close> prop is undefined, every engine that a render constructs,
  at the mount or later in any run, is constructed with \<open>autoFocus\<close> true; and the mount
  does construct one.
\<close>

theorem C10_autoFocus_default:
  assumes "autoFocus p = None"
  shows "NewEditor 0 (editor_args_of c p (render_options p)) \<in> set (trace (mount env c p))
    \<and> (\<forall>k a. NewEditor k a \<in> set (trace (mount env c p)) \<longrightarrow> arg_autoFocus a)
    \<and> (\<forall>k a. NewEditor k a \<in> set (new_events env (Render c p) (run env c0 p0 acts))
          \<longrightarrow> arg_autoFocus a)"
proof -
  have af: "arg_autoFocus (editor_args_of c p (render_options p))"
    using assms by (simp add: editor_args_of_def render_options_def)
  have m: "filter is_recreation (trace (mount env c p)) =
     [NewEditor 0 (editor_args_of c p (render_options p))]"
    by (rule recreations_mount)
  have 1: "NewEditor 0 (editor_args_of c p (render_options p)) \<in> set (trace (mount env c p))"
    by (subst NewEditor_recreation) (simp add: m)
  have 2: "arg_autoFocus a" if "NewEditor k a \<in> set (trace (mount env c p))" for k a
    using that af by (subst (asm) NewEditor_recreation) (simp add: m)
  have 3: "arg_autoFocus a"
    if "NewEditor k a \<in> set (new_events env (Render c p) (run env c0 p0 acts))" for k a
  proof (cases "alive (run env c0 p0 acts)")
    case True
    show ?thesis
      using that af
      by (subst (asm) NewEditor_recreation)
        (simp add: recreations_render[OF consistent_run True] split: if_splits)
  next
    case False
    then show ?thesis using that by (simp add: new_events_dead)
  qed
  show ?thesis using 1 2 3 by blast
qed

text \<open>
  The example props leave \<open>autoFocus\<close> undefined, at the mount and at a render that
  replaces the instance.
\<close>

theorem C10_witness:
  "autoFocus example_props = None
   \<and> NewEditor 0 (editor_args_of example_hooks example_props (render_options example_props))
       \<in> set (trace (mount example_env example_hooks example_props))
   \<and> arg_autoFocus (editor_args_of example_hooks example_props (render_options example_props))
   \<and> NewEditor 1 (editor_args_of example_hooks (example_props\<lparr>store := 11\<rparr>)
          (render_options (example_props\<lparr>store := 11\<rparr>)))
       \<in> set (new_events example_env (Render example_hooks (example_props\<lparr>store := 11\<rparr>))
               (run example_env example_hooks example_props []))
   \<and> arg_autoFocus (editor_args_of example_hooks (example_props\<lparr>store := 11\<rparr>)
          (render_options (example_props\<lparr>store := 11\<rparr>)))"
proof -
  have h: "autoFocus example_props = None" by (simp add: example_props_def)
  have h': "autoFocus (example_props\<lparr>store := 11\<rparr>) = None" by (simp add: example_props_def)
  let ?q = "example_props\<lparr>store := 11\<rparr>"
  let ?s = "run example_env example_hooks example_props []"
  have ed: "constructed ?s = Suc 0"
    "deps_recreate ?s = Some (recreate_deps example_hooks example_props)"
    by (simp_all add: run_def example_mount)
  have diff: "deps_recreate ?s \<noteq> Some (recreate_deps example_hooks ?q)"
    by (simp add: ed recreate_deps_def) (simp add: example_props_def)
  have "filter is_recreation (new_events example_env (Render example_hooks ?q) ?s) =
      [Dispose 0, NewEditor 1 (editor_args_of example_hooks ?q (render_options ?q))]"
    using diff by (simp add: recreations_render[OF consistent_run example_alive] ed)
  then have m: "NewEditor 1 (editor_args_of example_hooks ?q (render_options ?q))
      \<in> set (new_events example_env (Render example_hooks ?q) ?s)"
    by (subst NewEditor_recreation) simp
  show ?thesis
    using h C10_autoFocus_default[OF h, of example_hooks example_env]
      C10_autoFocus_default[OF h', of example_hooks example_env example_hooks example_props "[]"]
      m
    by blast
qed

end
